theory Spec2Isabelle
  imports
    Complex_Main
    "HOL-Library.Char_ord"
    "HOL-Library.List_Lexorder"
    "HOL-Library.Product_Lexorder"
    "HOL-Library.Multiset"
begin

section \<open>Values\<close>

text \<open>
  A Python float (an SQLite REAL). A finite double is identified with the real number it
  denotes, so comparisons are exact; the three special values of IEEE 754 are kept apart,
  since \<open>nan\<close> compares false with everything. The two zeros are not distinguished.
\<close>

datatype pyfloat = Fin real | PosInf | NegInf | NaN

text \<open>The Python comparisons \<open>amount <= 0\<close> and \<open>amount > 0\<close>.\<close>

fun pf_le0 :: "pyfloat \<Rightarrow> bool" where
  "pf_le0 (Fin x) = (x \<le> 0)"
| "pf_le0 NegInf = True"
| "pf_le0 PosInf = False"
| "pf_le0 NaN = False"

fun pf_gt0 :: "pyfloat \<Rightarrow> bool" where
  "pf_gt0 (Fin x) = (0 < x)"
| "pf_gt0 PosInf = True"
| "pf_gt0 NegInf = False"
| "pf_gt0 NaN = False"

section \<open>Floating-point addition\<close>

text \<open>
  Addition of doubles, as IEEE 754 defines it: the exact sum is rounded to the nearest
  double, a tie going to the double with the even significand, and a result of magnitude
  \<open>2 ^ 1024\<close> or more is an infinity. A double is \<open>m * 2 ^ e\<close> with an integer
  \<open>m < 2 ^ 53\<close> and an exponent \<open>e\<close> from \<open>- 1074\<close> to \<open>971\<close>. For a positive real
  \<open>a\<close>, \<open>find_exp\<close> looks for the exponent of its last place, the \<open>e\<close> with
  \<open>2 ^ 52 * 2 ^ e \<le> a < 2 ^ 53 * 2 ^ e\<close>, or \<open>- 1074\<close> when \<open>a\<close> is smaller than that
  allows; it moves one step at a time from the exponent given, and \<open>fuel\<close> bounds the
  number of steps (2200 steps reach every exponent of a double from 0).
\<close>

definition pow2 :: "int \<Rightarrow> real" where
  "pow2 e = (if 0 \<le> e then 2 ^ nat e else 1 / 2 ^ nat (- e))"

function find_exp :: "int \<Rightarrow> real \<Rightarrow> int \<Rightarrow> int" where
  "find_exp fuel a e =
     (if fuel \<le> 0 then e
      else if 2 ^ 53 * pow2 e \<le> a then find_exp (fuel - 1) a (e + 1)
      else if a < 2 ^ 52 * pow2 e \<and> - 1074 < e then find_exp (fuel - 1) a (e - 1)
      else e)"
  by pat_completeness auto

termination
  by (relation "measure (\<lambda>(fuel, a, e). nat fuel)") auto

declare find_exp.simps [simp del]

text \<open>Rounding of a nonnegative real to an integer, a tie going to the even one.\<close>

definition round_even :: "real \<Rightarrow> int" where
  "round_even q =
     (let f = \<lfloor>q\<rfloor>; r = q - of_int f
      in if r < 1 / 2 then f else if 1 / 2 < r then f + 1 else if even f then f else f + 1)"

definition ieee_round :: "real \<Rightarrow> pyfloat" where
  "ieee_round x =
     (if x = 0 then Fin 0
      else
        (let a = \<bar>x\<bar>;
             e = find_exp 2200 a 0;
             y = of_int (round_even (a / pow2 e)) * pow2 e
         in if 2 ^ 1024 \<le> y then (if x < 0 then NegInf else PosInf)
            else Fin (if x < 0 then - y else y)))"

fun ieee_add :: "pyfloat \<Rightarrow> pyfloat \<Rightarrow> pyfloat" where
  "ieee_add NaN _ = NaN"
| "ieee_add _ NaN = NaN"
| "ieee_add PosInf NegInf = NaN"
| "ieee_add NegInf PosInf = NaN"
| "ieee_add PosInf _ = PosInf"
| "ieee_add _ PosInf = PosInf"
| "ieee_add NegInf _ = NegInf"
| "ieee_add _ NegInf = NegInf"
| "ieee_add (Fin x) (Fin y) = ieee_round (x + y)"

fun pf_neg :: "pyfloat \<Rightarrow> pyfloat" where
  "pf_neg (Fin x) = Fin (- x)"
| "pf_neg PosInf = NegInf"
| "pf_neg NegInf = PosInf"
| "pf_neg NaN = NaN"

definition ieee_sub :: "pyfloat \<Rightarrow> pyfloat \<Rightarrow> pyfloat" where
  "ieee_sub x y = ieee_add x (pf_neg y)"

text \<open>The comparison \<open>fabs(x) > fabs(y)\<close> of C; it is false when an operand is NaN.\<close>

fun fabs_gt :: "pyfloat \<Rightarrow> pyfloat \<Rightarrow> bool" where
  "fabs_gt NaN _ = False"
| "fabs_gt _ NaN = False"
| "fabs_gt (Fin x) (Fin y) = (\<bar>y\<bar> < \<bar>x\<bar>)"
| "fabs_gt (Fin x) _ = False"
| "fabs_gt _ (Fin y) = True"
| "fabs_gt _ _ = False"

section \<open>Exceptions\<close>

text \<open>
  The exceptions the modelled code can raise. \<open>DatabaseError\<close> stands for
  \<open>sqlite3.DatabaseError\<close> and its subclasses (a violated constraint, a full table, a
  parameter of a type that cannot be bound).
\<close>

datatype py_error = ValueError | TypeError | OverflowError | AttributeError | DatabaseError

section \<open>SQL values and three-valued conditions\<close>

text \<open>
  A nullable SQL value is an option, \<open>None\<close> being NULL. A condition evaluates to true,
  false or NULL (\<open>None\<close>); a row is selected by WHERE only when the condition is true.
\<close>

definition sql_eq :: "'a option \<Rightarrow> 'a option \<Rightarrow> bool option" where
  "sql_eq a b = (case (a, b) of (Some x, Some y) \<Rightarrow> Some (x = y) | _ \<Rightarrow> None)"

definition sql_ge :: "('a::linorder) option \<Rightarrow> 'a option \<Rightarrow> bool option" where
  "sql_ge a b = (case (a, b) of (Some x, Some y) \<Rightarrow> Some (y \<le> x) | _ \<Rightarrow> None)"

definition sql_is_null :: "'a option \<Rightarrow> bool option" where
  "sql_is_null a = Some (a = None)"

definition sql_and :: "bool option \<Rightarrow> bool option \<Rightarrow> bool option" where
  "sql_and p q =
     (if p = Some False \<or> q = Some False then Some False
      else if p = Some True \<and> q = Some True then Some True
      else None)"

definition sql_or :: "bool option \<Rightarrow> bool option \<Rightarrow> bool option" where
  "sql_or p q =
     (if p = Some True \<or> q = Some True then Some True
      else if p = Some False \<and> q = Some False then Some False
      else None)"

definition sql_true :: "bool option \<Rightarrow> bool" where
  "sql_true p = (p = Some True)"

text \<open>
  Binding a Python float as a statement parameter: SQLite has no NaN value and binds it
  as NULL.
\<close>

definition bind_float :: "pyfloat \<Rightarrow> pyfloat option" where
  "bind_float x = (if x = NaN then None else Some x)"

section \<open>The table \<open>personal_expenses\<close>\<close>

text \<open>
  A value of the column \<open>expense_date\<close>. The column is declared \<open>DATE\<close>, which gives it
  NUMERIC affinity: a text that reads as a number (\<open>'20240115'\<close>, \<open>' 12 '\<close>, \<open>'1.0'\<close>,
  \<open>'1e5'\<close>) is stored as that number, and so is a Python number; \<open>'1e999'\<close> and the float
  \<open>inf\<close> are stored as infinity; any other text (\<open>'2024-01-15'\<close>, \<open>''\<close>, \<open>'abc'\<close>) is
  stored as it is. The same conversion is applied to the parameter of the comparison
  \<open>expense_date = ?\<close>. A date is represented by what the column makes of the value
  passed: a number (an integer or a double, by the real it denotes), an infinity, or a
  text that does not read as a number. A value the column cannot take (\<open>None\<close> and NaN
  violate \<open>NOT NULL\<close>, a list cannot be bound) makes the statements raise; it is no value
  of this type, and the functions of \<open>db_helper.py\<close> are modelled on the dates the column
  takes. The handler's date field has a case for the others.
\<close>

datatype sql_date = DateNum real | DatePosInf | DateNegInf | DateText string

text \<open>
  The order of \<open>ORDER BY\<close> on such values: numbers come before texts, numbers are
  compared by value, texts byte by byte. \<open>date_key\<close> maps a date to a key whose
  lexicographic order is that order.
\<close>

fun date_key :: "sql_date \<Rightarrow> nat \<times> real \<times> string" where
  "date_key DateNegInf = (0, 0, [])"
| "date_key (DateNum x) = (1, x, [])"
| "date_key DatePosInf = (2, 0, [])"
| "date_key (DateText s) = (3, 0, s)"

text \<open>
  One row of the table created by \<open>init_db\<close>. \<open>created_at\<close> is the text
  \<open>YYYY-MM-DD HH:MM:SS\<close> written by \<open>CURRENT_TIMESTAMP\<close>; it is represented by the number of
  seconds it denotes, whose order is the order of the fixed-width texts. \<open>id\<close> is named
  \<open>id_e\<close> here.
\<close>

record expense =
  id_e :: int
  amount :: pyfloat
  category :: string
  description :: "string option"
  expense_date :: sql_date
  created_at :: int

text \<open>
  The database file: the rows in rowid order and the counter that \<open>AUTOINCREMENT\<close> keeps
  in \<open>sqlite_sequence\<close> (the largest rowid ever handed out).
\<close>

record db =
  rows :: "expense list"
  sqlite_sequence :: int

text \<open>The \<open>CHECK (category IN (...))\<close> list of the schema in \<open>init_db\<close>.\<close>

definition CATEGORY_CHECK :: "string list" where
  "CATEGORY_CHECK =
     [''FOOD'', ''RENT'', ''TRANSPORT'', ''GROCERIES'', ''UTILITIES'', ''ENTERTAINMENT'',
      ''HEALTH'', ''EDUCATION'', ''SHOPPING'', ''TRAVEL'', ''OTHER'']"

text \<open>\<open>init_db\<close> on a fresh file: \<open>CREATE TABLE IF NOT EXISTS\<close> leaves an empty table.\<close>

definition init_db :: db where
  "init_db = \<lparr>rows = [], sqlite_sequence = 0\<rparr>"

section \<open>The clocks\<close>

text \<open>
  The code reads two clocks. \<open>CURRENT_TIMESTAMP\<close> (the default of \<open>created_at\<close>) is the UTC
  time in whole seconds. \<open>datetime.now()\<close> in \<open>check_duplicate\<close> is the naive local time of
  the server, with microseconds. An instant is given by its UTC time in microseconds and
  the server's offset from UTC in seconds. The check and the insertion of one call to
  \<open>add_expense\<close> happen at the same instant.
\<close>

record clock =
  utc_micros :: int
  utc_offset :: int

definition CURRENT_TIMESTAMP :: "clock \<Rightarrow> int" where
  "CURRENT_TIMESTAMP clk = utc_micros clk div 1000000"

definition datetime_now :: "clock \<Rightarrow> int" where
  "datetime_now clk = utc_micros clk + utc_offset clk * 1000000"

text \<open>\<open>strftime('%Y-%m-%d %H:%M:%S')\<close> drops the microseconds.\<close>

definition strftime :: "int \<Rightarrow> int" where
  "strftime micros = micros div 1000000"

definition timedelta_minutes :: "int \<Rightarrow> int" where
  "timedelta_minutes m = m * 60 * 1000000"

section \<open>\<open>db_helper.py\<close>\<close>

text \<open>
  \<open>ORDER BY created_at DESC LIMIT 1\<close> followed by \<open>fetchone\<close>: a row with the greatest
  \<open>created_at\<close>; among several, SQL leaves the choice open, and SQLite returns the one
  that comes first in the table.
\<close>

definition latest :: "expense list \<Rightarrow> expense option" where
  "latest rs =
     (case rev (sort_key created_at (rev rs)) of [] \<Rightarrow> None | r # _ \<Rightarrow> Some r)"

definition duplicate_where :: "pyfloat \<Rightarrow> string \<Rightarrow> sql_date \<Rightarrow> string option \<Rightarrow> int \<Rightarrow> expense \<Rightarrow> bool option" where
  "duplicate_where amt cat date desc time_threshold r =
     sql_and (sql_and (sql_and (sql_and
       (sql_eq (Some (amount r)) (bind_float amt))
       (sql_eq (Some (category r)) (Some cat)))
       (sql_eq (Some (expense_date r)) (Some date)))
       (sql_or (sql_eq (description r) desc)
               (sql_and (sql_is_null (description r)) (sql_is_null desc))))
       (sql_ge (Some (created_at r)) (Some time_threshold))"

definition check_duplicate ::
  "clock \<Rightarrow> db \<Rightarrow> pyfloat \<Rightarrow> string \<Rightarrow> sql_date \<Rightarrow> string option \<Rightarrow> int \<Rightarrow> expense option" where
  "check_duplicate clk d amt cat date desc time_window_minutes =
     (let time_threshold = strftime (datetime_now clk - timedelta_minutes time_window_minutes)
      in latest (filter (\<lambda>r. sql_true (duplicate_where amt cat date desc time_threshold r)) (rows d)))"

text \<open>The dictionary \<open>add_expense\<close> returns.\<close>

record outcome =
  status :: string
  expense :: expense
  message :: string

text \<open>
  The \<open>INSERT\<close> statement under the schema of \<open>init_db\<close>: \<open>amount\<close> is \<open>NOT NULL\<close>,
  \<open>category\<close> must pass the \<open>CHECK\<close>, the id is one more than the largest rowid ever used
  (\<open>AUTOINCREMENT\<close>; no insertion once the largest 64-bit rowid was used), and
  \<open>created_at\<close> takes its default. A failed statement changes nothing. Returns the new
  database and \<open>cursor.lastrowid\<close>.
\<close>

definition max_rowid :: "db \<Rightarrow> int" where
  "max_rowid d = fold max (map id_e (rows d)) (sqlite_sequence d)"

definition insert_expense ::
  "clock \<Rightarrow> db \<Rightarrow> pyfloat \<Rightarrow> string \<Rightarrow> string option \<Rightarrow> sql_date \<Rightarrow> py_error + (db \<times> int)" where
  "insert_expense clk d amt cat desc date =
     (case bind_float amt of
        None \<Rightarrow> Inl DatabaseError
      | Some a \<Rightarrow>
          if cat \<notin> set CATEGORY_CHECK then Inl DatabaseError
          else if max_rowid d \<ge> 9223372036854775807 then Inl DatabaseError
          else
            (let expense_id = max_rowid d + 1;
                 row = \<lparr>id_e = expense_id, amount = a, category = cat, description = desc,
                        expense_date = date, created_at = CURRENT_TIMESTAMP clk\<rparr>
             in Inr (d\<lparr>rows := rows d @ [row], sqlite_sequence := expense_id\<rparr>, expense_id)))"

text \<open>\<open>SELECT ... WHERE id = ?\<close> followed by \<open>fetchone\<close>.\<close>

definition select_by_id :: "db \<Rightarrow> int \<Rightarrow> expense option" where
  "select_by_id d i = find (\<lambda>r. id_e r = i) (rows d)"

definition add_expense ::
  "clock \<Rightarrow> db \<Rightarrow> pyfloat \<Rightarrow> string \<Rightarrow> sql_date \<Rightarrow> string option \<Rightarrow> py_error + (db \<times> outcome)" where
  "add_expense clk d amt cat date desc =
     (case check_duplicate clk d amt cat date desc 5 of
        Some existing \<Rightarrow>
          Inr (d, \<lparr>status = ''duplicate'', expense = existing,
                   message = ''Duplicate expense detected. Returning existing record.''\<rparr>)
      | None \<Rightarrow>
          (case insert_expense clk d amt cat desc date of
             Inl e \<Rightarrow> Inl e
           | Inr (d', expense_id) \<Rightarrow>
               (case select_by_id d' expense_id of
                  None \<Rightarrow> Inl TypeError
                | Some row \<Rightarrow>
                    Inr (d', \<lparr>status = ''created'', expense = row,
                              message = ''Expense created successfully.''\<rparr>))))"

text \<open>Python's truth value of an optional string: \<open>None\<close> and \<open>''\<close> are false.\<close>

definition truthy :: "string option \<Rightarrow> bool" where
  "truthy s = (case s of None \<Rightarrow> False | Some t \<Rightarrow> t \<noteq> [])"

text \<open>The optional \<open>WHERE category = ?\<close> of both queries.\<close>

definition where_category :: "string option \<Rightarrow> expense list \<Rightarrow> expense list" where
  "where_category cat rs =
     (if truthy cat then filter (\<lambda>r. sql_true (sql_eq (Some (category r)) cat)) rs else rs)"

text \<open>
  \<open>ORDER BY expense_date, created_at\<close>, ascending or descending in both keys. Rows equal
  in both keys come in an order SQL leaves open; SQLite returns them in table order, in
  both directions.
\<close>

definition order_key :: "expense \<Rightarrow> (nat \<times> real \<times> string) \<times> int" where
  "order_key r = (date_key (expense_date r), created_at r)"

definition order_by :: "bool \<Rightarrow> expense list \<Rightarrow> expense list" where
  "order_by desc rs = (if desc then rev (sort_key order_key (rev rs)) else sort_key order_key rs)"

definition get_expenses :: "db \<Rightarrow> string option \<Rightarrow> bool \<Rightarrow> expense list" where
  "get_expenses d cat sort_by_date_desc = order_by sort_by_date_desc (where_category cat (rows d))"

text \<open>
  \<open>SUM(amount)\<close> over the values of a REAL column, as SQLite computes it (since version
  3.44, by the summation of Kahan, Babuska and Neumaier): each value is added to the
  running sum \<open>rSum\<close> and the rounding error of that addition to \<open>rErr\<close>; the result
  is \<open>rSum + rErr\<close>, or \<open>rSum\<close> when \<open>rErr\<close> is an infinity or NaN. The sum over no
  rows is NULL; a NaN result is returned as NULL as well.
\<close>

definition kahanBabuskaNeumaierStep :: "pyfloat \<times> pyfloat \<Rightarrow> pyfloat \<Rightarrow> pyfloat \<times> pyfloat" where
  "kahanBabuskaNeumaierStep p r =
     (let s = fst p; t = ieee_add s r
      in (t, ieee_add (snd p)
               (if fabs_gt s r then ieee_add (ieee_sub s t) r
                else ieee_add (ieee_sub r t) s)))"

definition sqlite3IsOverflow :: "pyfloat \<Rightarrow> bool" where
  "sqlite3IsOverflow x = (case x of Fin _ \<Rightarrow> False | _ \<Rightarrow> True)"

definition sumFinalize :: "pyfloat \<times> pyfloat \<Rightarrow> pyfloat" where
  "sumFinalize p =
     (if sqlite3IsOverflow (snd p) then fst p else ieee_add (fst p) (snd p))"

definition sql_sum :: "pyfloat list \<Rightarrow> pyfloat option" where
  "sql_sum xs =
     (if xs = [] then None
      else bind_float (sumFinalize (foldl kahanBabuskaNeumaierStep (Fin 0, Fin 0) xs)))"


text \<open>
  \<open>delete_expense\<close>. A Python integer is bound as a 64-bit integer; for one outside that
  range the first \<open>execute\<close> raises \<open>OverflowError\<close>, before any statement has run.
\<close>

definition delete_expense :: "db \<Rightarrow> int \<Rightarrow> py_error + (db \<times> bool)" where
  "delete_expense d expense_id =
     (if expense_id < - 9223372036854775808 \<or> 9223372036854775807 < expense_id
      then Inl OverflowError
      else
        (case select_by_id d expense_id of
           None \<Rightarrow> Inr (d, False)
         | Some _ \<Rightarrow>
             Inr (d\<lparr>rows := filter (\<lambda>r. id_e r \<noteq> expense_id) (rows d)\<rparr>, True)))"

section \<open>\<open>app.py\<close>\<close>

definition VALID_CATEGORIES :: "string list" where
  "VALID_CATEGORIES =
     [''FOOD'', ''RENT'', ''TRANSPORT'', ''GROCERIES'', ''UTILITIES'',
      ''ENTERTAINMENT'', ''HEALTH'', ''EDUCATION'', ''SHOPPING'', ''TRAVEL'', ''OTHER'']"

text \<open>
  The \<open>amount\<close> field of the request body, by what \<open>data.get('amount')\<close> and then
  \<open>float(amount)\<close> make of it: the key is missing or null (\<open>Missing\<close>), \<open>float\<close> returns a
  float (\<open>Numeric\<close>: a JSON number, or a string such as \<open>"12.5"\<close> or \<open>"nan"\<close>), \<open>float\<close>
  raises \<open>ValueError\<close> or \<open>TypeError\<close> (\<open>NonNumeric\<close>: any other string, a list, an object),
  or \<open>float\<close> raises \<open>OverflowError\<close> (\<open>TooLarge\<close>: a JSON integer too large for a float).
\<close>

datatype amount_field = Missing | Numeric pyfloat | NonNumeric | TooLarge

text \<open>
  The \<open>category\<close> field, by what the handler does with it: a string (\<open>StrCategory\<close>), a
  false value that is not a string (\<open>FalseCategory\<close>: the key is missing or null, or the
  value is 0, false, an empty list or an empty object), or a true value that is not a
  string (\<open>OtherCategory\<close>: a nonzero number, true, a non-empty list or object).
\<close>

datatype category_field = FalseCategory | StrCategory string | OtherCategory

text \<open>
  The \<open>date\<close> field, by what the handler and the store do with it: a false value
  (\<open>FalseDate\<close>: the key is missing or null, or the value is the empty string, 0, false, an
  empty list or an empty object), a true value SQLite stores (\<open>StoredDate\<close>: a non-empty
  string, a nonzero number, true, given by what the column \<open>expense_date\<close> makes of it), or
  a true value on which the statements of \<open>add_expense\<close> raise (\<open>RaisingDate\<close>: a list or an
  object cannot be bound, an integer outside 64 bits raises \<open>OverflowError\<close>, NaN is bound
  as NULL and violates \<open>NOT NULL\<close>).
\<close>

datatype date_field = FalseDate | StoredDate sql_date | RaisingDate py_error

text \<open>
  The JSON object of a create request, by the four keys the handler reads. \<open>description\<close>
  is \<open>None\<close> when the key is missing, \<open>Some None\<close> when it is null, otherwise a string.
\<close>

record request_json =
  j_amount :: amount_field
  j_category :: category_field
  j_date :: date_field
  j_description :: "string option option"

text \<open>\<open>dict.get(key, default)\<close>.\<close>

definition dict_get :: "'a option \<Rightarrow> 'a \<Rightarrow> 'a" where
  "dict_get v dflt = (case v of None \<Rightarrow> dflt | Some x \<Rightarrow> x)"

text \<open>
  What \<open>jsonify\<close> is given, and the response: the body and the status code. \<open>Deleted\<close> is
  the body of the answer to a successful deletion, with the id.
\<close>

datatype payload = Error string | Exception py_error | Result outcome | Deleted int

type_synonym response = "payload \<times> nat"

fun join :: "string \<Rightarrow> string list \<Rightarrow> string" where
  "join sep [] = []"
| "join sep [x] = x"
| "join sep (x # y # ys) = x @ sep @ join sep (y # ys)"

text \<open>
  \<open>float(amount)\<close> on the amount field. \<open>float(None)\<close> raises \<open>TypeError\<close>; a non-numeric
  value raises \<open>ValueError\<close> or \<open>TypeError\<close>, which the handler catches together, and
  \<open>ValueError\<close> stands for both.
\<close>

fun py_float :: "amount_field \<Rightarrow> py_error + pyfloat" where
  "py_float Missing = Inl TypeError"
| "py_float NonNumeric = Inl ValueError"
| "py_float TooLarge = Inl OverflowError"
| "py_float (Numeric x) = Inr x"

text \<open>Python's truth value of the category field: \<open>not category\<close> is its negation.\<close>

fun truthy_category :: "category_field \<Rightarrow> bool" where
  "truthy_category FalseCategory = False"
| "truthy_category (StrCategory s) = (s \<noteq> [])"
| "truthy_category OtherCategory = True"

text \<open>
  \<open>category.upper()\<close>: only a string has the method; on any other value the attribute
  lookup raises \<open>AttributeError\<close>. \<open>upper\<close> is Python's \<open>str.upper\<close>.
\<close>

fun category_upper :: "(string \<Rightarrow> string) \<Rightarrow> category_field \<Rightarrow> py_error + string" where
  "category_upper upper (StrCategory s) = Inr (upper s)"
| "category_upper upper FalseCategory = Inl AttributeError"
| "category_upper upper OtherCategory = Inl AttributeError"

text \<open>
  The handler of \<open>POST /expenses\<close>, from the value of \<open>request.get_json()\<close> on: \<open>data\<close> is
  \<open>None\<close> when that value is false (the body is the JSON \<open>null\<close>, \<open>false\<close>, 0, or an empty
  string, list or object), and the object otherwise. An exception raised in the handler,
  by \<open>float\<close>, by \<open>upper\<close> or by the store (to which a date it cannot take is passed), is
  caught by its \<open>except Exception\<close> and answered with status 500. So is a request on which
  \<open>get_json\<close> itself raises (no body, or a body that is not JSON), and one whose body is a
  true JSON value other than an object; these two are not represented.
\<close>

definition create_expense ::
  "(string \<Rightarrow> string) \<Rightarrow> clock \<Rightarrow> db \<Rightarrow> request_json option \<Rightarrow> db \<times> response" where
  "create_expense upper clk d data =
     (case data of
        None \<Rightarrow> (d, (Error ''Request body is required'', 400))
      | Some body \<Rightarrow>
          (let desc = dict_get (j_description body) (Some [])
           in if j_amount body = Missing then (d, (Error ''amount is required'', 400))
              else if \<not> truthy_category (j_category body)
              then (d, (Error ''category is required'', 400))
              else if j_date body = FalseDate then (d, (Error ''date is required'', 400))
              else
                (case py_float (j_amount body) of
                   Inl e \<Rightarrow>
                     if e = OverflowError then (d, (Exception e, 500))
                     else (d, (Error ''amount must be a valid number'', 400))
                 | Inr amt \<Rightarrow>
                     if pf_le0 amt then (d, (Error ''amount must be greater than 0'', 400))
                     else
                       (case category_upper upper (j_category body) of
                          Inl e \<Rightarrow> (d, (Exception e, 500))
                        | Inr cat \<Rightarrow>
                            if cat \<notin> set VALID_CATEGORIES
                            then (d, (Error (''category must be one of: '' @
                                              join '', '' VALID_CATEGORIES), 400))
                            else
                              (case j_date body of
                                 FalseDate \<Rightarrow> (d, (Error ''date is required'', 400))
                               | RaisingDate e \<Rightarrow> (d, (Exception e, 500))
                               | StoredDate date \<Rightarrow>
                                   (case add_expense clk d amt cat date desc of
                                      Inl e \<Rightarrow> (d, (Exception e, 500))
                                    | Inr (d', result) \<Rightarrow>
                                        if status result = ''duplicate''
                                        then (d', (Result result, 200))
                                        else (d', (Result result, 201))))))))"

text \<open>
  The handler of \<open>DELETE /expenses/<int:expense_id>\<close>. The path converter \<open>int\<close> accepts
  every sequence of decimal digits, so the id is any natural number.
\<close>

definition delete_expense_handler :: "db \<Rightarrow> int \<Rightarrow> db \<times> response" where
  "delete_expense_handler d expense_id =
     (case delete_expense d expense_id of
        Inl e \<Rightarrow> (d, (Exception e, 500))
      | Inr (d', deleted) \<Rightarrow>
          if deleted then (d', (Deleted expense_id, 200))
          else (d', (Error ''Expense not found'', 404)))"

text \<open>\<open>str.upper\<close> on ASCII text: the letters a to z become A to Z.\<close>

definition ascii_upper :: "string \<Rightarrow> string" where
  "ascii_upper s =
     map (\<lambda>c. case map_of (zip ''abcdefghijklmnopqrstuvwxyz'' ''ABCDEFGHIJKLMNOPQRSTUVWXYZ'') c of
                None \<Rightarrow> c | Some u \<Rightarrow> u) s"

section \<open>Auxiliary definitions\<close>

text \<open>
  The row an accepted \<open>INSERT\<close> appends, and the condition under which the statement is
  accepted: the bound amount is not NULL, the category passes the \<open>CHECK\<close>, and a rowid is
  left.
\<close>

definition new_row :: "clock \<Rightarrow> db \<Rightarrow> pyfloat \<Rightarrow> string \<Rightarrow> sql_date \<Rightarrow> string option \<Rightarrow> expense" where
  "new_row clk d amt cat date desc =
     \<lparr>id_e = max_rowid d + 1, amount = amt, category = cat, description = desc,
      expense_date = date, created_at = CURRENT_TIMESTAMP clk\<rparr>"

definition insertable :: "db \<Rightarrow> pyfloat \<Rightarrow> string \<Rightarrow> bool" where
  "insertable d amt cat \<longleftrightarrow>
     amt \<noteq> NaN \<and> cat \<in> set CATEGORY_CHECK \<and> max_rowid d < 9223372036854775807"

text \<open>The two dictionaries \<open>add_expense\<close> builds.\<close>

definition created :: "expense \<Rightarrow> outcome" where
  "created e = \<lparr>status = ''created'', expense = e, message = ''Expense created successfully.''\<rparr>"

definition duplicate :: "expense \<Rightarrow> outcome" where
  "duplicate e = \<lparr>status = ''duplicate'', expense = e,
     message = ''Duplicate expense detected. Returning existing record.''\<rparr>"

text \<open>A row agrees with a submitted tuple in the four fields the duplicate check compares.\<close>

definition matching :: "pyfloat \<Rightarrow> string \<Rightarrow> sql_date \<Rightarrow> string option \<Rightarrow> expense \<Rightarrow> bool" where
  "matching amt cat date desc r \<longleftrightarrow>
     amount r = amt \<and> category r = cat \<and> expense_date r = date \<and> description r = desc"

text \<open>
  What the schema of \<open>init_db\<close> keeps true of the table: \<open>id\<close> is a primary key, no id
  exceeds the \<open>AUTOINCREMENT\<close> counter, \<open>amount\<close> is not NULL, \<open>category\<close> passes the
  \<open>CHECK\<close>.
\<close>

definition schema_ok :: "db \<Rightarrow> bool" where
  "schema_ok d \<longleftrightarrow>
     distinct (map id_e (rows d)) \<and>
     (\<forall>r\<in>set (rows d). id_e r \<le> sqlite_sequence d \<and> amount r \<noteq> NaN \<and>
        category r \<in> set CATEGORY_CHECK)"

text \<open>
  A history of calls to the two mutating functions of the store. \<open>run\<close> returns the
  final database and the records created, in the order of their creation. A call that
  raises leaves the database as it was.
\<close>

datatype op = Record clock pyfloat string sql_date "string option" | Delete int

fun apply_op :: "db \<Rightarrow> op \<Rightarrow> db \<times> expense list" where
  "apply_op d (Record clk amt cat date desc) =
     (case add_expense clk d amt cat date desc of
        Inl e \<Rightarrow> (d, [])
      | Inr (d', out) \<Rightarrow> (d', if status out = ''created'' then [expense out] else []))"
| "apply_op d (Delete i) =
     (case delete_expense d i of
        Inl e \<Rightarrow> (d, [])
      | Inr (d', deleted) \<Rightarrow> (d', []))"

fun run :: "db \<Rightarrow> op list \<Rightarrow> db \<times> expense list" where
  "run d [] = (d, [])"
| "run d (x # xs) =
     (case apply_op d x of (d1, new) \<Rightarrow> (case run d1 xs of (d2, later) \<Rightarrow> (d2, new @ later)))"

text \<open>
  The rows a category filter selects, as the truth test \<open>if category:\<close> of both queries
  has it: all rows when the filter is absent or the empty string.
\<close>

definition selects :: "string option \<Rightarrow> expense \<Rightarrow> bool" where
  "selects cat r = (case cat of None \<Rightarrow> True | Some s \<Rightarrow> s = [] \<or> category r = s)"

text \<open>
  The order of SQLite on the values of \<open>expense_date\<close>: a number is less than a text,
  minus infinity is less than every other number and plus infinity greater, two finite
  numbers are compared by value and two texts byte by byte.
\<close>

fun date_less :: "sql_date \<Rightarrow> sql_date \<Rightarrow> bool" where
  "date_less DateNegInf b = (b \<noteq> DateNegInf)"
| "date_less (DateNum x) DateNegInf = False"
| "date_less (DateNum x) (DateNum y) = (x < y)"
| "date_less (DateNum x) DatePosInf = True"
| "date_less (DateNum x) (DateText t) = True"
| "date_less DatePosInf (DateText t) = True"
| "date_less DatePosInf b = False"
| "date_less (DateText s) (DateText t) = (s < t)"
| "date_less (DateText s) b = False"

text \<open>The two orders of \<open>ORDER BY expense_date, created_at\<close>, on rows.\<close>

definition asc_order :: "expense \<Rightarrow> expense \<Rightarrow> bool" where
  "asc_order a b \<longleftrightarrow>
     date_less (expense_date a) (expense_date b) \<or>
     expense_date a = expense_date b \<and> created_at a \<le> created_at b"

definition desc_order :: "expense \<Rightarrow> expense \<Rightarrow> bool" where
  "desc_order a b \<longleftrightarrow>
     date_less (expense_date b) (expense_date a) \<or>
     expense_date a = expense_date b \<and> created_at b \<le> created_at a"


section \<open>Example data\<close>

text \<open>
  2024-01-15 10:00:00 UTC is second 1705312800. The instants below are given on a server
  whose local time is UTC, on one at UTC+05:30 and on one at UTC-05:00.
\<close>

definition utc_clock :: "int \<Rightarrow> clock" where
  "utc_clock secs = \<lparr>utc_micros = secs * 1000000, utc_offset = 0\<rparr>"

definition kolkata_clock :: "int \<Rightarrow> clock" where
  "kolkata_clock secs = \<lparr>utc_micros = secs * 1000000, utc_offset = 19800\<rparr>"

definition new_york_clock :: "int \<Rightarrow> clock" where
  "new_york_clock secs = \<lparr>utc_micros = secs * 1000000, utc_offset = - 18000\<rparr>"

definition row1 :: expense where
  "row1 = \<lparr>id_e = 1, amount = Fin 100, category = ''FOOD'', description = Some ''lunch'',
           expense_date = DateText ''2024-01-15'', created_at = 1705312800\<rparr>"

definition row2 :: expense where
  "row2 = \<lparr>id_e = 2, amount = Fin 40, category = ''RENT'', description = None,
           expense_date = DateText ''2024-01-01'', created_at = 1705312860\<rparr>"

definition db1 :: db where
  "db1 = \<lparr>rows = [row1], sqlite_sequence = 1\<rparr>"

definition db2 :: db where
  "db2 = \<lparr>rows = [row1, row2], sqlite_sequence = 2\<rparr>"

text \<open>A history: two records are created, the second is deleted, and it is created again.\<close>

definition ops3 :: "op list" where
  "ops3 =
     [Record (utc_clock 1705312800) (Fin 100) ''FOOD'' (DateText ''2024-01-15'') (Some ''lunch''),
      Record (utc_clock 1705312860) (Fin 40) ''RENT'' (DateText ''2024-01-01'') None,
      Delete 2,
      Record (utc_clock 1705312920) (Fin 40) ''RENT'' (DateText ''2024-01-01'') None]"

definition row3 :: expense where
  "row3 = \<lparr>id_e = 3, amount = Fin 40, category = ''RENT'', description = None,
           expense_date = DateText ''2024-01-01'', created_at = 1705312920\<rparr>"

definition row1_again :: expense where
  "row1_again = \<lparr>id_e = 2, amount = Fin 100, category = ''FOOD'', description = Some ''lunch'',
           expense_date = DateText ''2024-01-15'', created_at = 1705312860\<rparr>"

definition row_empty :: expense where
  "row_empty = \<lparr>id_e = 1, amount = Fin 50, category = ''FOOD'', description = Some [],
           expense_date = DateText ''2024-01-15'', created_at = 1705312800\<rparr>"

definition row_null :: expense where
  "row_null = \<lparr>id_e = 2, amount = Fin 50, category = ''FOOD'', description = None,
           expense_date = DateText ''2024-01-15'', created_at = 1705312860\<rparr>"

definition nan_request :: request_json where
  "nan_request = \<lparr>j_amount = Numeric NaN, j_category = StrCategory ''FOOD'',
                   j_date = StoredDate (DateText ''2024-01-15''), j_description = None\<rparr>"

definition food_request :: request_json where
  "food_request = \<lparr>j_amount = Numeric (Fin 12.5), j_category = StrCategory ''food'',
                    j_date = StoredDate (DateText ''2024-01-15''), j_description = None\<rparr>"

definition row_food :: expense where
  "row_food = \<lparr>id_e = 1, amount = Fin 12.5, category = ''FOOD'', description = Some [],
           expense_date = DateText ''2024-01-15'', created_at = 1705312800\<rparr>"

definition pets_request :: request_json where
  "pets_request = \<lparr>j_amount = Numeric (Fin 12.5), j_category = StrCategory ''pets'',
                    j_date = StoredDate (DateText ''2024-01-15''), j_description = None\<rparr>"

definition number_category_request :: request_json where
  "number_category_request = \<lparr>j_amount = Numeric (Fin 12.5), j_category = OtherCategory,
                    j_date = StoredDate (DateText ''2024-01-15''), j_description = None\<rparr>"

definition null_request :: request_json where
  "null_request = \<lparr>j_amount = Numeric (Fin 50), j_category = StrCategory ''FOOD'',
                    j_date = StoredDate (DateText ''2024-01-15''), j_description = Some None\<rparr>"

definition row_null_http :: expense where
  "row_null_http = \<lparr>id_e = 1, amount = Fin 50, category = ''FOOD'', description = None,
           expense_date = DateText ''2024-01-15'', created_at = 1705312800\<rparr>"

definition lunch_request :: request_json where
  "lunch_request = \<lparr>j_amount = Numeric (Fin 100), j_category = StrCategory ''Food'',
                     j_date = StoredDate (DateText ''2024-01-15''), j_description = Some (Some ''lunch'')\<rparr>"

text \<open>A table with two rows of the same date.\<close>

definition row4 :: expense where
  "row4 = \<lparr>id_e = 4, amount = Fin 7, category = ''FOOD'', description = Some ''tea'',
           expense_date = DateText ''2024-01-01'', created_at = 1705313000\<rparr>"

definition row5 :: expense where
  "row5 = \<lparr>id_e = 5, amount = Fin 9, category = ''FOOD'', description = Some ''bus'',
           expense_date = DateText ''2024-01-03'', created_at = 1705313100\<rparr>"

definition db5 :: db where
  "db5 = \<lparr>rows = [row1, row2, row4, row5], sqlite_sequence = 5\<rparr>"

text \<open>A table with a date that SQLite stores as a number: \<open>'20240201'\<close>.\<close>

definition row8 :: expense where
  "row8 = \<lparr>id_e = 2, amount = Fin 20, category = ''FOOD'', description = Some ''dinner'',
           expense_date = DateNum 20240201, created_at = 1705312860\<rparr>"

definition db8 :: db where
  "db8 = \<lparr>rows = [row1, row8], sqlite_sequence = 2\<rparr>"


section \<open>The store: insertion and deletion\<close>

lemma fold_max_ge: "(a::int) \<le> fold max xs a"
  by (induction xs arbitrary: a) (auto intro: order_trans [OF max.cobounded2])

lemma fold_max_mem: "x \<in> set xs \<Longrightarrow> (x::int) \<le> fold max xs a"
proof (induction xs arbitrary: a)
  case Nil then show ?case by simp
next
  case (Cons y ys)
  show ?case
  proof (cases "x = y")
    case True
    have "max y a \<le> fold max ys (max y a)" by (rule fold_max_ge)
    with True show ?thesis by simp
  next
    case False
    with Cons show ?thesis by simp
  qed
qed

lemma max_rowid_row: "r \<in> set (rows d) \<Longrightarrow> id_e r \<le> max_rowid d"
  by (simp add: max_rowid_def fold_max_mem)

lemma insert_expense_eq:
  "insert_expense clk d amt cat desc date =
     (if insertable d amt cat
      then Inr (d\<lparr>rows := rows d @ [new_row clk d amt cat date desc],
                  sqlite_sequence := max_rowid d + 1\<rparr>, max_rowid d + 1)
      else Inl DatabaseError)"
  by (auto simp: insert_expense_def insertable_def bind_float_def new_row_def Let_def)

lemma find_fresh_append:
  "\<forall>x\<in>set xs. \<not> P x \<Longrightarrow> P y \<Longrightarrow> find P (xs @ [y]) = Some y"
  by (induction xs) auto

lemma select_new_row:
  "select_by_id (d\<lparr>rows := rows d @ [new_row clk d amt cat date desc], sqlite_sequence := s\<rparr>)
     (max_rowid d + 1) = Some (new_row clk d amt cat date desc)"
proof -
  have "\<forall>x\<in>set (rows d). \<not> id_e x = max_rowid d + 1"
    using max_rowid_row [of _ d] by fastforce
  then show ?thesis
    by (simp add: select_by_id_def find_fresh_append new_row_def)
qed

lemma add_expense_eq:
  "add_expense clk d amt cat date desc =
     (case check_duplicate clk d amt cat date desc 5 of
        Some existing \<Rightarrow> Inr (d, duplicate existing)
      | None \<Rightarrow>
          if insertable d amt cat
          then Inr (d\<lparr>rows := rows d @ [new_row clk d amt cat date desc],
                      sqlite_sequence := max_rowid d + 1\<rparr>,
                    created (new_row clk d amt cat date desc))
          else Inl DatabaseError)"
  by (simp add: add_expense_def insert_expense_eq select_new_row created_def duplicate_def
           split: option.splits)

lemma select_by_id_None: "select_by_id d i = None \<longleftrightarrow> (\<forall>r\<in>set (rows d). id_e r \<noteq> i)"
  by (auto simp: select_by_id_def find_None_iff)

lemma delete_expense_eq:
  "delete_expense d i =
     (if i < - 9223372036854775808 \<or> 9223372036854775807 < i then Inl OverflowError
      else if \<exists>r\<in>set (rows d). id_e r = i
      then Inr (d\<lparr>rows := filter (\<lambda>r. id_e r \<noteq> i) (rows d)\<rparr>, True)
      else Inr (d, False))"
proof (cases "select_by_id d i")
  case None
  then have "\<not> (\<exists>r\<in>set (rows d). id_e r = i)"
    using select_by_id_None [of d i] by simp
  with None show ?thesis by (simp add: delete_expense_def)
next
  case (Some a)
  then have "\<not> (\<forall>r\<in>set (rows d). id_e r \<noteq> i)"
    using select_by_id_None [of d i] by simp
  with Some show ?thesis by (simp add: delete_expense_def)
qed

lemma set_where_category: "set (where_category c rs) \<subseteq> set rs"
  by (auto simp: where_category_def)

lemma set_order_by: "set (order_by desc rs) = set rs"
  by (simp add: order_by_def)

lemma set_get_expenses: "set (get_expenses d c desc) \<subseteq> set (rows d)"
  using set_where_category by (simp add: get_expenses_def set_order_by)

section \<open>Deletion\<close>

text \<open>
  For an id that SQLite can bind, \<open>delete_expense\<close> returns \<open>True\<close> and removes the rows
  with the given id when such a row is present, and returns \<open>False\<close> and leaves the
  database as it was when none is. Deleting the same id once more returns \<open>False\<close>, and
  no listing after the deletion contains a record with that id.
\<close>

lemma delete_expense_in_range:
  assumes "- 9223372036854775808 \<le> i" "i \<le> 9223372036854775807"
  shows "((\<exists>r\<in>set (rows d). id_e r = i) \<longrightarrow>
            delete_expense d i = Inr (d\<lparr>rows := filter (\<lambda>r. id_e r \<noteq> i) (rows d)\<rparr>, True)) \<and>
         ((\<forall>r\<in>set (rows d). id_e r \<noteq> i) \<longrightarrow> delete_expense d i = Inr (d, False)) \<and>
         (\<forall>d' deleted. delete_expense d i = Inr (d', deleted) \<longrightarrow>
            delete_expense d' i = Inr (d', False) \<and>
            (\<forall>r\<in>set (get_expenses d' c desc). id_e r \<noteq> i))"
proof -
  have found: "(\<exists>r\<in>set (rows d). id_e r = i) \<longrightarrow>
      delete_expense d i = Inr (d\<lparr>rows := filter (\<lambda>r. id_e r \<noteq> i) (rows d)\<rparr>, True)"
    using assms by (simp add: delete_expense_eq)
  have absent: "(\<forall>r\<in>set (rows d). id_e r \<noteq> i) \<longrightarrow> delete_expense d i = Inr (d, False)"
    using assms by (simp add: delete_expense_eq)
  have after: "\<forall>d' deleted. delete_expense d i = Inr (d', deleted) \<longrightarrow>
            delete_expense d' i = Inr (d', False) \<and>
            (\<forall>r\<in>set (get_expenses d' c desc). id_e r \<noteq> i)"
  proof (intro allI impI)
    fix d' deleted assume del: "delete_expense d i = Inr (d', deleted)"
    then have gone: "\<forall>r\<in>set (rows d'). id_e r \<noteq> i"
      by (auto simp: delete_expense_eq split: if_splits)
    then have twice: "delete_expense d' i = Inr (d', False)"
      using assms by (simp add: delete_expense_eq [of d'])
    have listed: "\<forall>r\<in>set (get_expenses d' c desc). id_e r \<noteq> i"
      using gone set_get_expenses by blast
    from twice listed show "delete_expense d' i = Inr (d', False) \<and>
            (\<forall>r\<in>set (get_expenses d' c desc). id_e r \<noteq> i)" by simp
  qed
  show ?thesis
    by (intro conjI found absent after)
qed

lemma delete_db2:
  "delete_expense db2 1 = Inr (\<lparr>rows = [row2], sqlite_sequence = 2\<rparr>, True) \<and>
   delete_expense db2 7 = Inr (db2, False) \<and>
   delete_expense \<lparr>rows = [row2], sqlite_sequence = 2\<rparr> 1 =
     Inr (\<lparr>rows = [row2], sqlite_sequence = 2\<rparr>, False)"
  by (simp add: delete_expense_eq db2_def row1_def row2_def)

text \<open>
  The handler answers a deletion with status 200, and an id that no record has, and
  that SQLite can bind, with status 404.
\<close>

lemma delete_expense_handler_in_range:
  assumes "- 9223372036854775808 \<le> i" "i \<le> 9223372036854775807"
  shows "delete_expense_handler d i =
     (if \<exists>r\<in>set (rows d). id_e r = i
      then (d\<lparr>rows := filter (\<lambda>r. id_e r \<noteq> i) (rows d)\<rparr>, (Deleted i, 200))
      else (d, (Error ''Expense not found'', 404)))"
  using assms by (simp add: delete_expense_handler_def delete_expense_eq)

text \<open>
  Claim C8, at a failing input. The id 9223372036854775808, the first integer beyond 64
  bits, is the id of no record; it reaches the store by
  \<open>DELETE /expenses/9223372036854775808\<close>. \<open>delete_expense\<close> does not return \<open>False\<close>: binding
  the id raises \<open>OverflowError\<close>, and the handler answers with status 500 where an absent
  record is answered with 404. The table is as it was.
\<close>

theorem delete_unbindable_id_raises:
  "delete_expense d 9223372036854775808 = Inl OverflowError \<and>
   delete_expense_handler d 9223372036854775808 = (d, (Exception OverflowError, 500))"
  by (simp add: delete_expense_handler_def delete_expense_def)

section \<open>Identifiers\<close>

lemma fold_max_absorb: "\<forall>x\<in>set xs. x \<le> (a::int) \<Longrightarrow> fold max xs a = a"
  by (induction xs) (auto simp: max_def)

lemma add_expense_cases:
  assumes "add_expense clk d amt cat date desc = Inr (d1, out)"
  obtains (dup) existing where "check_duplicate clk d amt cat date desc 5 = Some existing"
      "d1 = d" "out = duplicate existing"
  | (new) "check_duplicate clk d amt cat date desc 5 = None" "insertable d amt cat"
      "d1 = d\<lparr>rows := rows d @ [new_row clk d amt cat date desc], sqlite_sequence := max_rowid d + 1\<rparr>"
      "out = created (new_row clk d amt cat date desc)"
  using assms by (auto simp: add_expense_eq split: option.splits if_splits)

lemma schema_ok_max_rowid: "schema_ok d \<Longrightarrow> max_rowid d = sqlite_sequence d"
  unfolding max_rowid_def by (rule fold_max_absorb) (auto simp: schema_ok_def)

lemma schema_ok_insert:
  assumes "schema_ok d" "insertable d amt cat"
  shows "schema_ok (d\<lparr>rows := rows d @ [new_row clk d amt cat date desc],
                      sqlite_sequence := max_rowid d + 1\<rparr>)"
proof -
  have m: "max_rowid d = sqlite_sequence d" using assms(1) by (rule schema_ok_max_rowid)
  have "\<forall>r\<in>set (rows d). id_e r \<noteq> sqlite_sequence d + 1"
    using assms(1) by (fastforce simp: schema_ok_def)
  then show ?thesis
    using assms m by (auto simp: schema_ok_def insertable_def new_row_def)
qed

lemma schema_ok_delete:
  "schema_ok d \<Longrightarrow> delete_expense d i = Inr (d', deleted) \<Longrightarrow> schema_ok d'"
  by (auto simp: delete_expense_eq schema_ok_def distinct_map_filter split: if_splits)

lemma add_expense_schema_ok:
  assumes "schema_ok d" "add_expense clk d amt cat date desc = Inr (d1, out)"
  shows "schema_ok d1"
  using assms(2)
proof (cases rule: add_expense_cases)
  case (dup existing)
  with assms(1) show ?thesis by simp
next
  case new
  with assms(1) show ?thesis by (simp add: schema_ok_insert)
qed

lemma apply_op_props:
  assumes "schema_ok d" "apply_op d x = (d1, new)"
  shows "schema_ok d1 \<and> sqlite_sequence d1 = sqlite_sequence d + int (length new) \<and>
         length new \<le> 1 \<and> (\<forall>e\<in>set new. id_e e = sqlite_sequence d + 1) \<and>
         set (rows d1) \<subseteq> set (rows d) \<union> set new"
proof (cases x)
  case (Record clk amt cat date desc)
  have m: "max_rowid d = sqlite_sequence d" using assms(1) by (rule schema_ok_max_rowid)
  show ?thesis
  proof (cases "add_expense clk d amt cat date desc")
    case (Inl e)
    with Record assms show ?thesis by auto
  next
    case (Inr p)
    then obtain d' out where p: "add_expense clk d amt cat date desc = Inr (d', out)"
      by (cases p) auto
    have ok: "schema_ok d'" using assms(1) p by (rule add_expense_schema_ok)
    from p show ?thesis
    proof (cases rule: add_expense_cases)
      case (dup existing)
      with p Record assms show ?thesis by (auto simp: duplicate_def)
    next
      case new
      with p Record assms ok m show ?thesis
        by (auto simp: created_def new_row_def)
    qed
  qed
next
  case (Delete i)
  show ?thesis
  proof (cases "delete_expense d i")
    case (Inl e)
    with Delete assms show ?thesis by auto
  next
    case (Inr p)
    then obtain d' deleted where p: "delete_expense d i = Inr (d', deleted)"
      by (cases p) auto
    from schema_ok_delete [OF assms(1) p] have ok: "schema_ok d'" .
    from p have "sqlite_sequence d' = sqlite_sequence d" "set (rows d') \<subseteq> set (rows d)"
      by (auto simp: delete_expense_eq split: if_splits)
    with Delete assms p ok show ?thesis by auto
  qed
qed

lemma run_props:
  assumes "schema_ok d" "run d ops = (d', new)"
  shows "schema_ok d' \<and> sqlite_sequence d' = sqlite_sequence d + int (length new) \<and>
         sorted_wrt (<) (map id_e new) \<and>
         (\<forall>e\<in>set new. sqlite_sequence d < id_e e \<and> id_e e \<le> sqlite_sequence d') \<and>
         set (rows d') \<subseteq> set (rows d) \<union> set new"
  using assms
proof (induction ops arbitrary: d d' new)
  case Nil
  then show ?case by simp
next
  case (Cons x xs)
  obtain d1 a where a: "apply_op d x = (d1, a)" by (cases "apply_op d x")
  obtain d2 b where b: "run d1 xs = (d2, b)" by (cases "run d1 xs")
  from Cons.prems(2) a b have eq: "d' = d2" "new = a @ b" by auto
  note pa = apply_op_props [OF Cons.prems(1) a]
  from pa have ok1: "schema_ok d1" by blast
  from pa have s1: "sqlite_sequence d1 = sqlite_sequence d + int (length a)" by blast
  from pa have ida: "\<forall>e\<in>set a. id_e e = sqlite_sequence d + 1" by blast
  from pa have ra: "set (rows d1) \<subseteq> set (rows d) \<union> set a" by blast
  from pa have len: "a = [] \<or> (\<exists>e. a = [e])"
    by (cases a) auto
  note pb = Cons.IH [OF ok1 b]
  from pb have ok2: "schema_ok d2" by blast
  from pb have s2: "sqlite_sequence d2 = sqlite_sequence d1 + int (length b)" by blast
  from pb have sb: "sorted_wrt (<) (map id_e b)" by blast
  from pb have idb: "\<forall>e\<in>set b. sqlite_sequence d1 < id_e e \<and> id_e e \<le> sqlite_sequence d2" by blast
  from pb have rb: "set (rows d2) \<subseteq> set (rows d1) \<union> set b" by blast
  have s12: "sqlite_sequence d \<le> sqlite_sequence d1" "sqlite_sequence d1 \<le> sqlite_sequence d2"
    using s1 s2 by simp_all
  have a1: "\<forall>e\<in>set a. sqlite_sequence d1 = sqlite_sequence d + 1"
    using len s1 by auto
  have cross: "\<forall>x\<in>set a. \<forall>y\<in>set b. id_e x < id_e y"
  proof (intro ballI)
    fix x y assume "x \<in> set a" "y \<in> set b"
    then have "id_e x = sqlite_sequence d1" "sqlite_sequence d1 < id_e y"
      using ida a1 idb by auto
    then show "id_e x < id_e y" by simp
  qed
  have sa: "sorted_wrt (<) (map id_e a)"
    using len by auto
  have sorted: "sorted_wrt (<) (map id_e (a @ b))"
    using cross sa sb by (simp add: sorted_wrt_append)
  have bounds: "\<forall>e\<in>set (a @ b). sqlite_sequence d < id_e e \<and> id_e e \<le> sqlite_sequence d2"
  proof
    fix e assume "e \<in> set (a @ b)"
    then consider "e \<in> set a" | "e \<in> set b" by auto
    then show "sqlite_sequence d < id_e e \<and> id_e e \<le> sqlite_sequence d2"
    proof cases
      case 1
      then have "id_e e = sqlite_sequence d + 1" "sqlite_sequence d1 = sqlite_sequence d + 1"
        using ida a1 by auto
      with s12 show ?thesis by simp
    next
      case 2
      then have "sqlite_sequence d1 < id_e e" "id_e e \<le> sqlite_sequence d2" using idb by auto
      with s12 show ?thesis by simp
    qed
  qed
  have sub: "set (rows d2) \<subseteq> set (rows d) \<union> set (a @ b)"
    using ra rb by auto
  have sq: "sqlite_sequence d2 = sqlite_sequence d + int (length (a @ b))"
    using s1 s2 by simp
  show ?case
    unfolding eq by (intro conjI ok2 sq sorted bounds sub)
qed

lemma counter_ids_Cons:
  "map (\<lambda>k. s + 1 + int k) [0..<Suc n] = (s + 1) # map (\<lambda>k. (s + 1) + 1 + int k) [0..<n]"
proof -
  have "[0..<Suc n] = 0 # map Suc [0..<n]"
    by (simp add: upt_conv_Cons map_Suc_upt del: upt_Suc)
  then show ?thesis
    by (simp add: comp_def add.commute add.left_commute del: upt_Suc)
qed

lemma run_ids:
  assumes "schema_ok d" "run d ops = (d', new)"
  shows "map id_e new = map (\<lambda>k. sqlite_sequence d + 1 + int k) [0..<length new]"
  using assms
proof (induction ops arbitrary: d d' new)
  case Nil
  then show ?case by simp
next
  case (Cons x xs)
  obtain d1 a where a: "apply_op d x = (d1, a)" by (cases "apply_op d x")
  obtain d2 b where b: "run d1 xs = (d2, b)" by (cases "run d1 xs")
  from Cons.prems(2) a b have eq: "new = a @ b" by auto
  note pa = apply_op_props [OF Cons.prems(1) a]
  from pa have ok1: "schema_ok d1" by blast
  from pa have s1: "sqlite_sequence d1 = sqlite_sequence d + int (length a)" by blast
  from pa have ida: "\<forall>e\<in>set a. id_e e = sqlite_sequence d + 1" by blast
  from pa have len: "a = [] \<or> (\<exists>e. a = [e])" by (cases a) auto
  note ih = Cons.IH [OF ok1 b]
  from len show ?case
  proof
    assume "a = []"
    with ih s1 eq show ?thesis by simp
  next
    assume "\<exists>e. a = [e]"
    then obtain e where e: "a = [e]" by blast
    with ida have ide: "id_e e = sqlite_sequence d + 1" by simp
    from e s1 have s1': "sqlite_sequence d1 = sqlite_sequence d + 1" by simp
    have "map id_e new = id_e e # map id_e b" using eq e by simp
    also have "\<dots> = (sqlite_sequence d + 1) # map (\<lambda>k. (sqlite_sequence d + 1) + 1 + int k) [0..<length b]"
      using ih ide s1' by simp
    also have "\<dots> = map (\<lambda>k. sqlite_sequence d + 1 + int k) [0..<Suc (length b)]"
      by (rule counter_ids_Cons [symmetric])
    finally show ?thesis using eq e by simp
  qed
qed

lemma schema_ok_init_db: "schema_ok init_db"
  by (simp add: schema_ok_def init_db_def)

lemma run_ops3: "run init_db ops3 = (\<lparr>rows = [row1, row3], sqlite_sequence = 3\<rparr>, [row1, row2, row3])"
  by (simp add: ops3_def init_db_def utc_clock_def row1_def row2_def row3_def add_expense_def
      check_duplicate_def duplicate_where_def sql_and_def sql_or_def sql_eq_def sql_ge_def
      sql_is_null_def sql_true_def bind_float_def latest_def insert_expense_def max_rowid_def
      CATEGORY_CHECK_def CURRENT_TIMESTAMP_def datetime_now_def strftime_def timedelta_minutes_def
      select_by_id_def delete_expense_def Let_def)

text \<open>
  Claim C9. Over any history of insertions and deletions that starts from a table the
  schema allows, the ids of the records created are the successive values of the
  \<open>AUTOINCREMENT\<close> counter (the caller has no say in them), so they increase strictly in
  the order of creation, deletions in between or not, are pairwise distinct and greater
  than every id the table held before. Every row of the final table is, in all its fields,
  a row of the initial table or a record as it was created: no id ever changes.
\<close>

theorem ids_unique_increasing:
  assumes "schema_ok d" "run d ops = (d', new)"
  shows "map id_e new = map (\<lambda>k. sqlite_sequence d + 1 + int k) [0..<length new] \<and>
         sorted_wrt (<) (map id_e new) \<and>
         distinct (map id_e new) \<and>
         (\<forall>e\<in>set new. \<forall>r\<in>set (rows d). id_e r < id_e e) \<and>
         set (rows d') \<subseteq> set (rows d) \<union> set new \<and>
         distinct (map id_e (rows d'))"
proof -
  note p = run_props [OF assms]
  from p have srt: "sorted_wrt (<) (map id_e new)" by blast
  then have dst: "distinct (map id_e new)"
    by (simp add: strict_sorted_iff)
  from p have b: "\<forall>e\<in>set new. sqlite_sequence d < id_e e" by blast
  have old: "\<forall>r\<in>set (rows d). id_e r \<le> sqlite_sequence d"
    using assms(1) by (simp add: schema_ok_def)
  have fresh: "\<forall>e\<in>set new. \<forall>r\<in>set (rows d). id_e r < id_e e"
  proof (intro ballI)
    fix e r assume "e \<in> set new" "r \<in> set (rows d)"
    then have "sqlite_sequence d < id_e e" "id_e r \<le> sqlite_sequence d" using b old by auto
    then show "id_e r < id_e e" by simp
  qed
  from p have sub: "set (rows d') \<subseteq> set (rows d) \<union> set new" by blast
  from p have "schema_ok d'" by blast
  then have dr: "distinct (map id_e (rows d'))" by (simp add: schema_ok_def)
  note cnt = run_ids [OF assms]
  show ?thesis by (intro conjI cnt srt dst fresh sub dr)
qed

text \<open>The theorem at the history \<open>ops3\<close> from the empty table: the ids are 1, 2, 3.\<close>

theorem ids_unique_increasing_witness:
  "schema_ok init_db \<and>
   run init_db ops3 = (\<lparr>rows = [row1, row3], sqlite_sequence = 3\<rparr>, [row1, row2, row3]) \<and>
   map id_e [row1, row2, row3] = [1, 2, 3] \<and>
   map id_e [row1, row2, row3] =
     map (\<lambda>k. sqlite_sequence init_db + 1 + int k) [0..<length [row1, row2, row3]] \<and>
   sorted_wrt (<) (map id_e [row1, row2, row3]) \<and>
   distinct (map id_e [row1, row2, row3]) \<and>
   set (rows \<lparr>rows = [row1, row3], sqlite_sequence = 3\<rparr>) \<subseteq> set (rows init_db) \<union> set [row1, row2, row3] \<and>
   distinct (map id_e (rows \<lparr>rows = [row1, row3], sqlite_sequence = 3\<rparr>))"
proof -
  note t = ids_unique_increasing [OF schema_ok_init_db run_ops3]
  have ids: "map id_e [row1, row2, row3] = [1, 2, 3]"
    by (simp add: row1_def row2_def row3_def)
  from t have n: "map id_e [row1, row2, row3] =
     map (\<lambda>k. sqlite_sequence init_db + 1 + int k) [0..<length [row1, row2, row3]]" by blast
  from t have a: "sorted_wrt (<) (map id_e [row1, row2, row3])" by blast
  from t have b: "distinct (map id_e [row1, row2, row3])" by blast
  from t have c: "set (rows \<lparr>rows = [row1, row3], sqlite_sequence = 3\<rparr>) \<subseteq> set (rows init_db) \<union> set [row1, row2, row3]"
    by blast
  from t have e: "distinct (map id_e (rows \<lparr>rows = [row1, row3], sqlite_sequence = 3\<rparr>))" by blast
  show ?thesis by (intro conjI schema_ok_init_db run_ops3 ids n a b c e)
qed

section \<open>Duplicate detection\<close>

lemma duplicate_where_iff:
  "sql_true (duplicate_where amt cat date desc th r) \<longleftrightarrow>
     amt \<noteq> NaN \<and> amount r = amt \<and> category r = cat \<and> expense_date r = date \<and>
     description r = desc \<and> th \<le> created_at r"
  by (cases "description r"; cases desc)
     (auto simp: sql_true_def duplicate_where_def sql_and_def sql_or_def sql_eq_def sql_ge_def
        sql_is_null_def bind_float_def)

lemma latest_None: "latest rs = None \<longleftrightarrow> rs = []"
proof (cases "rev (sort_key created_at (rev rs))")
  case Nil
  then have "rs = []" by (metis length_0_conv length_rev length_sort)
  with Nil show ?thesis by (simp add: latest_def)
next
  case (Cons r ys)
  then have "rs \<noteq> []" by auto
  with Cons show ?thesis by (simp add: latest_def)
qed

lemma latest_Some:
  assumes "latest rs = Some r"
  shows "r \<in> set rs \<and> (\<forall>x\<in>set rs. created_at x \<le> created_at r)"
proof -
  from assms obtain ys where ys: "rev (sort_key created_at (rev rs)) = r # ys"
    by (auto simp: latest_def split: list.splits)
  then have s: "sort_key created_at (rev rs) = rev ys @ [r]"
    by (metis rev_rev_ident rev.simps(2))
  have st: "set (sort_key created_at (rev rs)) = set rs" by simp
  with s have mem: "r \<in> set rs" by auto
  have "sorted (map created_at (sort_key created_at (rev rs)))" by (rule sorted_sort_key)
  with s have "\<forall>x\<in>set (rev ys). created_at x \<le> created_at r"
    by (auto simp: sorted_append)
  then have "\<forall>x\<in>set (rev ys @ [r]). created_at x \<le> created_at r" by auto
  with s st have "\<forall>x\<in>set rs. created_at x \<le> created_at r" by simp
  with mem show ?thesis by simp
qed

text \<open>Of two rows with the same \<open>created_at\<close>, the first of the table is taken.\<close>

lemma latest_first_of_ties:
  "latest [row1, row1_again\<lparr>created_at := 1705312800\<rparr>, row2] = Some row2 \<and>
   latest [row1, row1_again\<lparr>created_at := 1705312800\<rparr>] = Some row1"
  by (simp add: latest_def row1_def row1_again_def row2_def)

text \<open>
  The threshold of the duplicate check, in seconds: the UTC second of the call, plus the
  server's offset from UTC, less the window.
\<close>

lemma time_threshold_eq:
  "strftime (datetime_now clk - timedelta_minutes m) = CURRENT_TIMESTAMP clk + utc_offset clk - m * 60"
proof -
  have "datetime_now clk - timedelta_minutes m = utc_micros clk + (utc_offset clk - m * 60) * 1000000"
    by (simp add: datetime_now_def timedelta_minutes_def algebra_simps)
  then show ?thesis
    by (simp add: strftime_def CURRENT_TIMESTAMP_def)
qed

lemma check_duplicate_None_iff:
  "check_duplicate clk d amt cat date desc m = None \<longleftrightarrow>
     (\<forall>r\<in>set (rows d). \<not> (amt \<noteq> NaN \<and> matching amt cat date desc r \<and>
        CURRENT_TIMESTAMP clk + utc_offset clk - m * 60 \<le> created_at r))"
  by (auto simp: check_duplicate_def latest_None filter_empty_conv duplicate_where_iff
        time_threshold_eq matching_def)

lemma check_duplicate_Some:
  assumes "check_duplicate clk d amt cat date desc m = Some r"
  shows "r \<in> set (rows d) \<and> amt \<noteq> NaN \<and> matching amt cat date desc r \<and>
         CURRENT_TIMESTAMP clk + utc_offset clk - m * 60 \<le> created_at r"
proof -
  from assms have "latest (filter (\<lambda>r. sql_true (duplicate_where amt cat date desc
      (strftime (datetime_now clk - timedelta_minutes m)) r)) (rows d)) = Some r"
    by (simp add: check_duplicate_def)
  then have "r \<in> set (filter (\<lambda>r. sql_true (duplicate_where amt cat date desc
      (strftime (datetime_now clk - timedelta_minutes m)) r)) (rows d))"
    by (rule latest_Some [THEN conjunct1])
  then show ?thesis
    by (simp add: duplicate_where_iff time_threshold_eq matching_def)
qed

text \<open>
  On a server whose local time is UTC the window is the trailing five minutes: a matching
  row created at most 300 seconds before the second of the call makes the call a duplicate,
  and the table stays as it is.
\<close>

lemma add_expense_duplicate_utc:
  assumes "utc_offset clk = 0" "r \<in> set (rows d)" "amt \<noteq> NaN" "matching amt cat date desc r"
    "CURRENT_TIMESTAMP clk - 300 \<le> created_at r"
  shows "\<exists>e\<in>set (rows d). matching amt cat date desc e \<and>
           add_expense clk d amt cat date desc = Inr (d, duplicate e)"
proof (cases "check_duplicate clk d amt cat date desc 5")
  case None
  with assms show ?thesis
    using check_duplicate_None_iff [of clk d amt cat date desc 5] by auto
next
  case (Some e)
  from check_duplicate_Some [OF Some] have "e \<in> set (rows d)" "matching amt cat date desc e"
    by blast+
  with Some show ?thesis by (auto simp: add_expense_eq)
qed

text \<open>
  On such a server, when every matching row is more than 300 seconds older than the second
  of the call, the call inserts a new row.
\<close>

lemma add_expense_created_utc:
  assumes "utc_offset clk = 0" "insertable d amt cat"
    "\<forall>r\<in>set (rows d). matching amt cat date desc r \<longrightarrow> created_at r < CURRENT_TIMESTAMP clk - 300"
  shows "add_expense clk d amt cat date desc =
           Inr (d\<lparr>rows := rows d @ [new_row clk d amt cat date desc],
                  sqlite_sequence := max_rowid d + 1\<rparr>,
                created (new_row clk d amt cat date desc))"
proof -
  have "check_duplicate clk d amt cat date desc 5 = None"
    unfolding check_duplicate_None_iff using assms(1,3) by fastforce
  with assms(2) show ?thesis by (simp add: add_expense_eq)
qed

lemmas eval_defs = init_db_def utc_clock_def add_expense_def
      check_duplicate_def duplicate_where_def sql_and_def sql_or_def sql_eq_def sql_ge_def
      sql_is_null_def sql_true_def bind_float_def latest_def insert_expense_def max_rowid_def
      CATEGORY_CHECK_def CURRENT_TIMESTAMP_def datetime_now_def strftime_def timedelta_minutes_def
      select_by_id_def Let_def

text \<open>
  Claim C1, at a failing input. The server's local time is UTC+05:30. The tuple
  (100.0, FOOD, 2024-01-15, lunch) is recorded at 10:00:00 UTC into the empty table and again
  60 seconds later. The threshold of the second check is the local time less five minutes,
  which is 5 h 25 min after the \<open>created_at\<close> of the first record (written in UTC), so the
  first record is not found and a second row is inserted. (\<open>add_expense_duplicate_utc\<close>
  above is the claim on a server whose local time is UTC.)
\<close>

theorem duplicate_missed_east_of_utc:
  "add_expense (kolkata_clock 1705312800) init_db (Fin 100) ''FOOD'' (DateText ''2024-01-15'') (Some ''lunch'')
     = Inr (db1, created row1) \<and>
   add_expense (kolkata_clock 1705312860) db1 (Fin 100) ''FOOD'' (DateText ''2024-01-15'') (Some ''lunch'')
     = Inr (\<lparr>rows = [row1, row1_again], sqlite_sequence = 2\<rparr>, created row1_again)"
  by (simp add: eval_defs kolkata_clock_def db1_def row1_def row1_again_def created_def)

text \<open>
  Claim C2, at a failing input. The server's local time is UTC-05:00. The tuple is recorded
  at 10:00:00 UTC into the empty table and again one hour later. The threshold of the second
  check is 5 h 5 min before the instant of the call in UTC, so the first record, one hour
  old, is returned as a duplicate and no row is inserted. (\<open>add_expense_created_utc\<close>
  above is the claim on a server whose local time is UTC, with times in whole seconds.)
\<close>

theorem duplicate_kept_west_of_utc:
  "add_expense (new_york_clock 1705312800) init_db (Fin 100) ''FOOD'' (DateText ''2024-01-15'') (Some ''lunch'')
     = Inr (db1, created row1) \<and>
   add_expense (new_york_clock 1705316400) db1 (Fin 100) ''FOOD'' (DateText ''2024-01-15'') (Some ''lunch'')
     = Inr (db1, duplicate row1)"
  by (simp add: eval_defs new_york_clock_def db1_def row1_def duplicate_def created_def)

text \<open>
  The same tuple on a server at UTC: created, a duplicate after 60 seconds, created again
  after 301 seconds.
\<close>

lemma duplicate_suppressed_utc_example:
  "add_expense (utc_clock 1705312800) init_db (Fin 100) ''FOOD'' (DateText ''2024-01-15'') (Some ''lunch'')
     = Inr (db1, created row1) \<and>
   add_expense (utc_clock 1705312860) db1 (Fin 100) ''FOOD'' (DateText ''2024-01-15'') (Some ''lunch'')
     = Inr (db1, duplicate row1) \<and>
   add_expense (utc_clock 1705313101) db1 (Fin 100) ''FOOD'' (DateText ''2024-01-15'') (Some ''lunch'')
     = Inr (\<lparr>rows = [row1, row1_again\<lparr>created_at := 1705313101\<rparr>], sqlite_sequence = 2\<rparr>,
            created (row1_again\<lparr>created_at := 1705313101\<rparr>))"
  by (simp add: eval_defs db1_def row1_def row1_again_def duplicate_def created_def)

text \<open>
  The threshold is cut to whole seconds: on a server at UTC a record whose \<open>created_at\<close> is
  300.9 seconds before the instant of the call is still a duplicate.
\<close>

lemma duplicate_kept_by_truncation_example:
  "add_expense \<lparr>utc_micros = 1705313100900000, utc_offset = 0\<rparr> db1 (Fin 100) ''FOOD''
     (DateText ''2024-01-15'') (Some ''lunch'') = Inr (db1, duplicate row1) \<and>
   created_at row1 * 1000000 + 300 * 1000000 < 1705313100900000"
  by (simp add: eval_defs db1_def row1_def duplicate_def)

text \<open>
  Claim C3 fails. On a server at UTC, (50, FOOD, 2024-01-15, '') is recorded into the empty
  table and 60 seconds later (50, FOOD, 2024-01-15, null): the second call finds no
  duplicate and inserts a second row.
\<close>

theorem empty_then_null_counterexample:
  "add_expense (utc_clock 1705312800) init_db (Fin 50) ''FOOD'' (DateText ''2024-01-15'') (Some [])
     = Inr (\<lparr>rows = [row_empty], sqlite_sequence = 1\<rparr>, created row_empty) \<and>
   add_expense (utc_clock 1705312860) \<lparr>rows = [row_empty], sqlite_sequence = 1\<rparr>
       (Fin 50) ''FOOD'' (DateText ''2024-01-15'') None
     = Inr (\<lparr>rows = [row_empty, row_null], sqlite_sequence = 2\<rparr>, created row_null)"
  by (simp add: eval_defs row_empty_def row_null_def created_def)

lemma max_rowid_init_db: "max_rowid init_db = 0"
  by (simp add: max_rowid_def init_db_def)

lemma insertable_init_db: "insertable init_db amt cat \<longleftrightarrow> amt \<noteq> NaN \<and> cat \<in> set CATEGORY_CHECK"
  by (simp add: insertable_def max_rowid_init_db)

lemma add_expense_init_db:
  assumes "amt \<noteq> NaN" "cat \<in> set CATEGORY_CHECK"
  shows "add_expense clk init_db amt cat date desc =
     Inr (\<lparr>rows = [new_row clk init_db amt cat date desc], sqlite_sequence = 1\<rparr>,
          created (new_row clk init_db amt cat date desc))"
proof -
  have "check_duplicate clk init_db amt cat date desc 5 = None"
    by (simp add: check_duplicate_None_iff init_db_def)
  then show ?thesis
    using assms by (simp add: add_expense_eq insertable_init_db max_rowid_init_db) (simp add: init_db_def)
qed

lemma add_expense_other_description:
  assumes "amt \<noteq> NaN" "cat \<in> set CATEGORY_CHECK" "desc1 \<noteq> desc2"
  shows "\<exists>e1 e2. add_expense clk1 init_db amt cat date desc1
              = Inr (\<lparr>rows = [e1], sqlite_sequence = 1\<rparr>, created e1) \<and>
            add_expense clk2 \<lparr>rows = [e1], sqlite_sequence = 1\<rparr> amt cat date desc2
              = Inr (\<lparr>rows = [e1, e2], sqlite_sequence = 2\<rparr>, created e2) \<and>
            id_e e1 = 1 \<and> id_e e2 = 2 \<and> description e1 = desc1 \<and> description e2 = desc2"
proof -
  define e1 where "e1 = new_row clk1 init_db amt cat date desc1"
  define d1 where "d1 = \<lparr>rows = [e1], sqlite_sequence = 1\<rparr>"
  define e2 where "e2 = new_row clk2 d1 amt cat date desc2"
  have a1: "add_expense clk1 init_db amt cat date desc1 = Inr (d1, created e1)"
    unfolding d1_def e1_def using assms(1,2) by (rule add_expense_init_db)
  have "id_e e1 = 1"
    by (simp add: e1_def new_row_def max_rowid_init_db)
  then have m: "max_rowid d1 = 1"
    by (simp add: max_rowid_def d1_def)
  have ins: "insertable d1 amt cat"
    using assms(1,2) by (simp add: insertable_def m)
  have "check_duplicate clk2 d1 amt cat date desc2 5 = None"
    using assms(3) by (simp add: check_duplicate_None_iff d1_def e1_def new_row_def matching_def)
  then have a2: "add_expense clk2 d1 amt cat date desc2 = Inr (\<lparr>rows = [e1, e2], sqlite_sequence = 2\<rparr>, created e2)"
    using ins by (simp add: add_expense_eq m e2_def) (simp add: d1_def)
  have ids: "id_e e1 = 1" "id_e e2 = 2" "description e1 = desc1" "description e2 = desc2"
    by (simp_all add: e1_def e2_def new_row_def m max_rowid_init_db)
  show ?thesis
    using a1 a2 ids unfolding d1_def by blast
qed

text \<open>
  Claim C3, amended. The duplicate match compares descriptions by equality, NULL being
  equal to NULL only: a row returned by \<open>check_duplicate\<close> has the very description that was
  submitted. So an absent description and the empty string are different: recording a tuple
  with \<open>''\<close> and then with null into the empty table, or the other way round, stores two
  rows with the ids 1 and 2, whatever the two instants and the server's time zone.
\<close>

theorem description_match_is_equality:
  "(check_duplicate clk d amt cat date desc m = Some r \<longrightarrow> description r = desc) \<and>
   (amt \<noteq> NaN \<and> cat \<in> set CATEGORY_CHECK \<longrightarrow>
      (\<exists>e1 e2. add_expense clk1 init_db amt cat date (Some [])
              = Inr (\<lparr>rows = [e1], sqlite_sequence = 1\<rparr>, created e1) \<and>
            add_expense clk2 \<lparr>rows = [e1], sqlite_sequence = 1\<rparr> amt cat date None
              = Inr (\<lparr>rows = [e1, e2], sqlite_sequence = 2\<rparr>, created e2) \<and>
            id_e e1 = 1 \<and> id_e e2 = 2 \<and> description e1 = Some [] \<and> description e2 = None) \<and>
      (\<exists>e1 e2. add_expense clk1 init_db amt cat date None
              = Inr (\<lparr>rows = [e1], sqlite_sequence = 1\<rparr>, created e1) \<and>
            add_expense clk2 \<lparr>rows = [e1], sqlite_sequence = 1\<rparr> amt cat date (Some [])
              = Inr (\<lparr>rows = [e1, e2], sqlite_sequence = 2\<rparr>, created e2) \<and>
            id_e e1 = 1 \<and> id_e e2 = 2 \<and> description e1 = None \<and> description e2 = Some []))"
proof -
  have a: "check_duplicate clk d amt cat date desc m = Some r \<longrightarrow> description r = desc"
    using check_duplicate_Some [of clk d amt cat date desc m r] by (simp add: matching_def)
  have ne: "Some [] \<noteq> (None :: string option)" "(None :: string option) \<noteq> Some []" by simp_all
  show ?thesis
    using a add_expense_other_description [OF _ _ ne(1), of amt cat clk1 date clk2]
      add_expense_other_description [OF _ _ ne(2), of amt cat clk1 date clk2]
    by blast
qed

text \<open>
  The theorem at a table where a row with a NULL description is found for a NULL
  submission, and at the tuple (40, RENT, 2024-01-01).
\<close>

theorem description_match_is_equality_witness:
  "check_duplicate (utc_clock 1705312900) db2 (Fin 40) ''RENT'' (DateText ''2024-01-01'') None 5 = Some row2 \<and>
   description row2 = None \<and>
   Fin 40 \<noteq> NaN \<and> ''RENT'' \<in> set CATEGORY_CHECK \<and>
   (\<exists>e1 e2. add_expense (utc_clock 1705312800) init_db (Fin 40) ''RENT'' (DateText ''2024-01-01'') (Some [])
              = Inr (\<lparr>rows = [e1], sqlite_sequence = 1\<rparr>, created e1) \<and>
            add_expense (utc_clock 1705312860) \<lparr>rows = [e1], sqlite_sequence = 1\<rparr>
                (Fin 40) ''RENT'' (DateText ''2024-01-01'') None
              = Inr (\<lparr>rows = [e1, e2], sqlite_sequence = 2\<rparr>, created e2) \<and>
            id_e e1 = 1 \<and> id_e e2 = 2 \<and> description e1 = Some [] \<and> description e2 = None)"
proof -
  have cd: "check_duplicate (utc_clock 1705312900) db2 (Fin 40) ''RENT'' (DateText ''2024-01-01'') None 5 = Some row2"
    by (simp add: eval_defs db2_def row1_def row2_def)
  have pre: "Fin 40 \<noteq> NaN" "''RENT'' \<in> set CATEGORY_CHECK"
    by (simp_all add: CATEGORY_CHECK_def)
  note t = description_match_is_equality [of "utc_clock 1705312900" db2 "Fin 40" "''RENT''"
      "DateText ''2024-01-01''" None 5 row2 "utc_clock 1705312800" "utc_clock 1705312860"]
  from t cd have d: "description row2 = None" by blast
  from t pre have ex: "\<exists>e1 e2. add_expense (utc_clock 1705312800) init_db (Fin 40) ''RENT'' (DateText ''2024-01-01'') (Some [])
              = Inr (\<lparr>rows = [e1], sqlite_sequence = 1\<rparr>, created e1) \<and>
            add_expense (utc_clock 1705312860) \<lparr>rows = [e1], sqlite_sequence = 1\<rparr>
                (Fin 40) ''RENT'' (DateText ''2024-01-01'') None
              = Inr (\<lparr>rows = [e1, e2], sqlite_sequence = 2\<rparr>, created e2) \<and>
            id_e e1 = 1 \<and> id_e e2 = 2 \<and> description e1 = Some [] \<and> description e2 = None"
    by blast
  show ?thesis by (intro conjI cd d pre ex)
qed

section \<open>The create endpoint\<close>

lemma py_float_Inr: "py_float a = Inr x \<longleftrightarrow> a = Numeric x"
  by (cases a) auto

lemma create_expense_valid:
  assumes "j_amount body = Numeric amt" "\<not> pf_le0 amt" "j_category body = StrCategory c" "c \<noteq> []"
    "j_date body = StoredDate dt" "upper c \<in> set VALID_CATEGORIES"
  shows "create_expense upper clk d (Some body) =
     (case add_expense clk d amt (upper c) dt (dict_get (j_description body) (Some [])) of
        Inl e \<Rightarrow> (d, (Exception e, 500))
      | Inr (d', result) \<Rightarrow>
          if status result = ''duplicate'' then (d', (Result result, 200))
          else (d', (Result result, 201)))"
  using assms by (simp add: create_expense_def Let_def)

lemma create_expense_Result:
  assumes "create_expense upper clk d data = (d', (Result out, code))"
  shows "\<exists>body amt c dt. data = Some body \<and> j_amount body = Numeric amt \<and> \<not> pf_le0 amt \<and>
           j_category body = StrCategory c \<and> c \<noteq> [] \<and> j_date body = StoredDate dt \<and>
           upper c \<in> set VALID_CATEGORIES \<and>
           add_expense clk d amt (upper c) dt (dict_get (j_description body) (Some [])) = Inr (d', out)"
proof (cases data)
  case None
  with assms show ?thesis by (simp add: create_expense_def)
next
  case (Some body)
  show ?thesis
  proof (cases "j_category body")
    case FalseCategory
    with assms Some show ?thesis
      by (simp add: create_expense_def Let_def split: if_splits)
  next
    case OtherCategory
    with assms Some show ?thesis
      by (simp add: create_expense_def Let_def split: if_splits sum.splits date_field.splits)
  next
    case (StrCategory c)
    show ?thesis
    proof (cases "j_date body")
      case FalseDate
      with assms Some show ?thesis
        by (simp add: create_expense_def Let_def split: if_splits)
    next
      case (RaisingDate e)
      with assms Some StrCategory show ?thesis
        by (simp add: create_expense_def Let_def split: if_splits sum.splits date_field.splits)
    next
      case (StoredDate dt)
      with assms Some StrCategory show ?thesis
        by (auto simp: create_expense_def Let_def py_float_Inr split: if_splits sum.splits date_field.splits)
    qed
  qed
qed

lemma create_expense_no_Result:
  assumes "create_expense upper clk d data = (d', (p, code))" "\<forall>out. p \<noteq> Result out"
  shows "d' = d"
proof (cases data)
  case None
  with assms show ?thesis by (simp add: create_expense_def)
next
  case (Some body)
  with assms show ?thesis
    by (auto simp: create_expense_def Let_def split: if_splits sum.splits date_field.splits)
qed

lemma create_expense_bad_category:
  assumes "j_category body = StrCategory c" "upper c \<notin> set VALID_CATEGORIES"
    "j_amount body \<noteq> TooLarge"
  shows "\<exists>msg. create_expense upper clk d (Some body) = (d, (Error msg, 400))"
  using assms
  by (cases "j_amount body") (auto simp: create_expense_def Let_def split: if_splits sum.splits date_field.splits)

lemma create_expense_bad_amount:
  assumes "j_amount body = Missing \<or> j_amount body = NonNumeric \<or>
           (\<exists>a. j_amount body = Numeric a \<and> pf_le0 a)"
  shows "\<exists>msg. create_expense upper clk d (Some body) = (d, (Error msg, 400))"
  using assms
  by (auto simp: create_expense_def Let_def split: if_splits sum.splits date_field.splits)


lemma check_duplicate_NaN: "check_duplicate clk d NaN cat date desc m = None"
  by (simp add: check_duplicate_None_iff)

lemma add_expense_NaN: "add_expense clk d NaN cat date desc = Inl DatabaseError"
  by (simp add: add_expense_eq check_duplicate_NaN insertable_def)

text \<open>
  Claim C4, at a failing input. The amount of the request is NaN (the JSON body
  \<open>{"amount": "nan", "category": "FOOD", "date": "2024-01-15"}\<close>, or the bare literal
  \<open>NaN\<close>, which Python's JSON parser accepts). \<open>nan <= 0\<close> is false, so the validation lets
  the amount through to \<open>add_expense\<close>; the \<open>INSERT\<close> then fails on \<open>NOT NULL\<close> and the
  handler answers with status 500, not with a client error. Nothing is stored.
\<close>

theorem nan_amount_server_error:
  "create_expense ascii_upper clk d (Some nan_request) = (d, (Exception DatabaseError, 500))"
proof -
  have u: "ascii_upper ''FOOD'' = ''FOOD''" by (simp add: ascii_upper_def)
  have v: "''FOOD'' \<in> set VALID_CATEGORIES" by (simp add: VALID_CATEGORIES_def)
  have "create_expense ascii_upper clk d (Some nan_request) =
     (case add_expense clk d NaN (ascii_upper ''FOOD'') (DateText ''2024-01-15'')
             (dict_get (j_description nan_request) (Some [])) of
        Inl e \<Rightarrow> (d, (Exception e, 500))
      | Inr (d', result) \<Rightarrow>
          if status result = ''duplicate'' then (d', (Result result, 200))
          else (d', (Result result, 201)))"
    by (rule create_expense_valid) (simp_all add: nan_request_def u v)
  then show ?thesis by (simp add: add_expense_NaN)
qed

lemma not_le0_gt0: "\<not> pf_le0 a \<Longrightarrow> a \<noteq> NaN \<Longrightarrow> pf_gt0 a"
  by (cases a) auto

lemma add_expense_rows:
  assumes "add_expense clk d amt cat date desc = Inr (d', out)"
  shows "expense out \<in> set (rows d') \<and> amt \<noteq> NaN \<and> matching amt cat date desc (expense out) \<and>
         set (rows d') = set (rows d) \<union> {expense out}"
  using assms
proof (cases rule: add_expense_cases)
  case (dup existing)
  from check_duplicate_Some [OF dup(1)] dup(2,3) show ?thesis
    by (auto simp: duplicate_def)
next
  case new
  then show ?thesis
    by (auto simp: created_def new_row_def insertable_def matching_def)
qed

text \<open>
  What the validation of the amount does achieve: a missing, non-numeric or non-positive
  amount is answered with status 400 (\<open>create_expense_bad_amount\<close>), and every row a
  request adds has an amount greater than 0.
\<close>

lemma stored_amount_positive:
  assumes "create_expense upper clk d data = (d', resp)"
  shows "\<forall>r\<in>set (rows d'). r \<in> set (rows d) \<or> pf_gt0 (amount r)"
proof (cases "\<exists>out. fst resp = Result out")
  case True
  then obtain out code where "resp = (Result out, code)" by (cases resp) auto
  with assms have "create_expense upper clk d data = (d', (Result out, code))" by simp
  from create_expense_Result [OF this] obtain body :: request_json and amt c dt where
    p: "\<not> pf_le0 amt" and
    a: "add_expense clk d amt (upper c) dt (dict_get (j_description body) (Some [])) = Inr (d', out)"
    by auto
  from add_expense_rows [OF a] have r: "set (rows d') = set (rows d) \<union> {expense out}"
    and m: "amount (expense out) = amt" "amt \<noteq> NaN"
    by (simp_all add: matching_def)
  from p m have "pf_gt0 (amount (expense out))" by (simp add: not_le0_gt0)
  with r show ?thesis by auto
next
  case False
  obtain p code where rc: "resp = (p, code)" by (cases resp)
  with False have "\<forall>out. p \<noteq> Result out" by simp
  with assms rc have "d' = d"
    using create_expense_no_Result [of upper clk d data d' p code] by simp
  then show ?thesis by simp
qed

text \<open>
  What the validation of the category does achieve, for every request with a body. A
  category that is a string whose upper-case form is not in \<open>VALID_CATEGORIES\<close> is
  answered with status 400 and the database is unchanged (unless \<open>float(amount)\<close> has
  raised \<open>OverflowError\<close> before); the record of a successful answer has the upper-case
  form of the submitted string, which is in the list; if all stored categories were in
  the list before the request, they are after it. The list has 11 distinct labels and is
  the list of the schema's \<open>CHECK\<close>.
\<close>

lemma category_normalised_and_closed:
  assumes "create_expense upper clk d (Some body) = (d', resp)"
  shows "(\<forall>c. j_category body = StrCategory c \<and> upper c \<notin> set VALID_CATEGORIES \<and>
              j_amount body \<noteq> TooLarge \<longrightarrow>
            snd resp = 400 \<and> d' = d) \<and>
         (\<forall>out. fst resp = Result out \<longrightarrow>
            (\<exists>c. j_category body = StrCategory c \<and> category (expense out) = upper c) \<and>
            category (expense out) \<in> set VALID_CATEGORIES) \<and>
         ((\<forall>r\<in>set (rows d). category r \<in> set VALID_CATEGORIES) \<longrightarrow>
          (\<forall>r\<in>set (rows d'). category r \<in> set VALID_CATEGORIES)) \<and>
         VALID_CATEGORIES = CATEGORY_CHECK \<and> distinct VALID_CATEGORIES \<and>
         length VALID_CATEGORIES = 11"
proof -
  obtain p code where resp: "resp = (p, code)" by (cases resp)
  have rej: "\<forall>c. j_category body = StrCategory c \<and> upper c \<notin> set VALID_CATEGORIES \<and>
              j_amount body \<noteq> TooLarge \<longrightarrow>
            snd resp = 400 \<and> d' = d"
  proof (intro allI impI)
    fix c assume "j_category body = StrCategory c \<and> upper c \<notin> set VALID_CATEGORIES \<and>
              j_amount body \<noteq> TooLarge"
    then obtain msg where "create_expense upper clk d (Some body) = (d, (Error msg, 400))"
      using create_expense_bad_category [of body c upper clk d] by blast
    with assms show "snd resp = 400 \<and> d' = d" by auto
  qed
  have res: "\<forall>out. fst resp = Result out \<longrightarrow>
            (\<exists>c. j_category body = StrCategory c \<and> category (expense out) = upper c) \<and>
            category (expense out) \<in> set VALID_CATEGORIES"
  proof (intro allI impI)
    fix out assume "fst resp = Result out"
    with assms resp have "create_expense upper clk d (Some body) = (d', (Result out, code))"
      by simp
    from create_expense_Result [OF this] obtain amt c dt where
      c: "j_category body = StrCategory c" "upper c \<in> set VALID_CATEGORIES" and
      a: "add_expense clk d amt (upper c) dt (dict_get (j_description body) (Some [])) = Inr (d', out)"
      by auto
    from add_expense_rows [OF a] have "category (expense out) = upper c"
      by (simp add: matching_def)
    with c show "(\<exists>c. j_category body = StrCategory c \<and> category (expense out) = upper c) \<and>
            category (expense out) \<in> set VALID_CATEGORIES" by simp
  qed
  have inv: "(\<forall>r\<in>set (rows d). category r \<in> set VALID_CATEGORIES) \<longrightarrow>
          (\<forall>r\<in>set (rows d'). category r \<in> set VALID_CATEGORIES)"
  proof (cases "\<exists>out. p = Result out")
    case True
    then obtain out where out: "p = Result out" by blast
    with assms resp have ce: "create_expense upper clk d (Some body) = (d', (Result out, code))"
      by simp
    from create_expense_Result [OF ce] obtain amt c dt where
      a: "add_expense clk d amt (upper c) dt (dict_get (j_description body) (Some [])) = Inr (d', out)"
      by auto
    from add_expense_rows [OF a] have "set (rows d') = set (rows d) \<union> {expense out}" by blast
    moreover from res out resp have "category (expense out) \<in> set VALID_CATEGORIES" by simp
    ultimately show ?thesis by auto
  next
    case False
    with assms resp have "d' = d"
      using create_expense_no_Result [of upper clk d "Some body" d' p code] by blast
    then show ?thesis by simp
  qed
  have lst: "VALID_CATEGORIES = CATEGORY_CHECK" "distinct VALID_CATEGORIES"
    "length VALID_CATEGORIES = 11"
    by (simp_all add: VALID_CATEGORIES_def CATEGORY_CHECK_def)
  show ?thesis by (intro conjI rej res inv lst)
qed

text \<open>
  Acceptance is case-insensitive: a request whose category is a string with an upper-case
  form in the list, with a positive amount and a date the store takes, is not refused;
  it is answered with the outcome of \<open>add_expense\<close> for the upper-case form.
\<close>

lemma category_accepted_in_any_case:
  assumes "j_category body = StrCategory c" "c \<noteq> []" "upper c \<in> set VALID_CATEGORIES"
    "j_amount body = Numeric amt" "pf_gt0 amt" "j_date body = StoredDate dt"
    "add_expense clk d amt (upper c) dt (dict_get (j_description body) (Some [])) = Inr (d', out)"
  shows "create_expense upper clk d (Some body) =
           (d', (Result out, if status out = ''duplicate'' then 200 else 201)) \<and>
         category (expense out) = upper c"
proof -
  from assms(5) have pos: "\<not> pf_le0 amt" by (cases amt) auto
  have "create_expense upper clk d (Some body) =
     (case add_expense clk d amt (upper c) dt (dict_get (j_description body) (Some [])) of
        Inl e \<Rightarrow> (d, (Exception e, 500))
      | Inr (d', result) \<Rightarrow>
          if status result = ''duplicate'' then (d', (Result result, 200))
          else (d', (Result result, 201)))"
    using assms(4) pos assms(1,2) assms(6) assms(3) by (rule create_expense_valid)
  then have ce: "create_expense upper clk d (Some body) =
           (d', (Result out, if status out = ''duplicate'' then 200 else 201))"
    by (simp add: assms(7))
  from add_expense_rows [OF assms(7)] have "category (expense out) = upper c"
    by (simp add: matching_def)
  with ce show ?thesis by simp
qed

lemma ascii_upper_labels:
  "map ascii_upper [''food'', ''Rent'', ''tRANSPORT'', ''groceries'', ''Utilities'',
      ''entertainment'', ''health'', ''Education'', ''shopping'', ''travel'', ''other''] =
     VALID_CATEGORIES \<and>
   map ascii_upper VALID_CATEGORIES = VALID_CATEGORIES"
  by (simp add: ascii_upper_def VALID_CATEGORIES_def)

lemma create_food:
  "create_expense ascii_upper (utc_clock 1705312800) init_db (Some food_request) =
     (\<lparr>rows = [row_food], sqlite_sequence = 1\<rparr>, (Result (created row_food), 201))"
  by (simp add: create_expense_def food_request_def row_food_def created_def
        dict_get_def ascii_upper_def VALID_CATEGORIES_def eval_defs)

lemma create_pets:
  "create_expense ascii_upper (utc_clock 1705312800) init_db (Some pets_request) =
     (init_db, (Error (''category must be one of: '' @ join '', '' VALID_CATEGORIES), 400))"
  by (simp add: create_expense_def pets_request_def
        dict_get_def ascii_upper_def VALID_CATEGORIES_def)

text \<open>
  Claim C5, at a failing input. The category of the request is the number 123 (the JSON
  body \<open>{"amount": 12.5, "category": 123, "date": "2024-01-15"}\<close>), which is outside the
  list. It is true, so it passes the test \<open>not category\<close>; \<open>category.upper()\<close> then raises
  \<open>AttributeError\<close>, and the handler answers with status 500, not with a client error.
  Nothing is stored.
\<close>

theorem non_string_category_server_error:
  "create_expense upper clk d (Some number_category_request) =
     (d, (Exception AttributeError, 500))"
  by (simp add: create_expense_def number_category_request_def)

text \<open>
  Claim C10 fails. A request with \<open>"description": null\<close> creates a record whose description
  is NULL: \<open>data.get('description', '')\<close> returns the default only when the key is missing.
\<close>

theorem null_description_counterexample:
  "create_expense ascii_upper (utc_clock 1705312800) init_db (Some null_request) =
     (\<lparr>rows = [row_null_http], sqlite_sequence = 1\<rparr>, (Result (created row_null_http), 201)) \<and>
   description row_null_http = None"
  by (simp add: create_expense_def null_request_def row_null_http_def created_def
        dict_get_def ascii_upper_def VALID_CATEGORIES_def eval_defs)

text \<open>
  Claim C10, amended. A request that omits the description has the same answer and the
  same effect as the request with the description \<open>''\<close>, for every table and instant. The
  record of a successful answer has the description the handler passed on: \<open>''\<close> when the
  key is missing, NULL when the value is null, the string otherwise.
\<close>

theorem description_default_empty:
  "create_expense upper clk d (Some (body\<lparr>j_description := None\<rparr>)) =
     create_expense upper clk d (Some (body\<lparr>j_description := Some (Some [])\<rparr>)) \<and>
   (create_expense upper clk d (Some body) = (d', (Result out, code)) \<longrightarrow>
      (j_description body = None \<longrightarrow> description (expense out) = Some []) \<and>
      (j_description body = Some None \<longrightarrow> description (expense out) = None) \<and>
      (\<forall>s. j_description body = Some (Some s) \<longrightarrow> description (expense out) = Some s))"
proof -
  have same: "create_expense upper clk d (Some (body\<lparr>j_description := None\<rparr>)) =
     create_expense upper clk d (Some (body\<lparr>j_description := Some (Some [])\<rparr>))"
    by (simp add: create_expense_def dict_get_def Let_def cong: sum.case_cong if_cong)
  have stored: "create_expense upper clk d (Some body) = (d', (Result out, code)) \<longrightarrow>
      (j_description body = None \<longrightarrow> description (expense out) = Some []) \<and>
      (j_description body = Some None \<longrightarrow> description (expense out) = None) \<and>
      (\<forall>s. j_description body = Some (Some s) \<longrightarrow> description (expense out) = Some s)"
  proof
    assume ce: "create_expense upper clk d (Some body) = (d', (Result out, code))"
    from create_expense_Result [OF ce] obtain amt c dt where
      a: "add_expense clk d amt (upper c) dt (dict_get (j_description body) (Some [])) = Inr (d', out)"
      by auto
    from add_expense_rows [OF a]
    have "description (expense out) = dict_get (j_description body) (Some [])"
      by (simp add: matching_def)
    then show "(j_description body = None \<longrightarrow> description (expense out) = Some []) \<and>
      (j_description body = Some None \<longrightarrow> description (expense out) = None) \<and>
      (\<forall>s. j_description body = Some (Some s) \<longrightarrow> description (expense out) = Some s)"
      by (simp add: dict_get_def)
  qed
  show ?thesis by (intro conjI same stored)
qed

lemma create_lunch:
  "create_expense ascii_upper (utc_clock 1705312800) init_db (Some lunch_request) =
     (db1, (Result (created row1), 201))"
  by (simp add: create_expense_def lunch_request_def row1_def db1_def created_def
        dict_get_def ascii_upper_def VALID_CATEGORIES_def eval_defs)

text \<open>
  The theorem at three requests on the empty table: description omitted, null and
  \<open>lunch\<close>.
\<close>

theorem description_default_empty_witness:
  "create_expense ascii_upper (utc_clock 1705312800) init_db (Some food_request) =
     (\<lparr>rows = [row_food], sqlite_sequence = 1\<rparr>, (Result (created row_food), 201)) \<and>
   j_description food_request = None \<and>
   description (expense (created row_food)) = Some [] \<and>
   create_expense ascii_upper (utc_clock 1705312800) init_db (Some null_request) =
     (\<lparr>rows = [row_null_http], sqlite_sequence = 1\<rparr>, (Result (created row_null_http), 201)) \<and>
   j_description null_request = Some None \<and>
   description (expense (created row_null_http)) = None \<and>
   create_expense ascii_upper (utc_clock 1705312800) init_db (Some lunch_request) =
     (db1, (Result (created row1), 201)) \<and>
   j_description lunch_request = Some (Some ''lunch'') \<and>
   description (expense (created row1)) = Some ''lunch''"
proof -
  have cn: "create_expense ascii_upper (utc_clock 1705312800) init_db (Some null_request) =
     (\<lparr>rows = [row_null_http], sqlite_sequence = 1\<rparr>, (Result (created row_null_http), 201))"
    by (simp add: create_expense_def null_request_def row_null_http_def created_def
        dict_get_def ascii_upper_def VALID_CATEGORIES_def eval_defs)
  have j1: "j_description food_request = None" by (simp add: food_request_def)
  have j2: "j_description null_request = Some None" by (simp add: null_request_def)
  have j3: "j_description lunch_request = Some (Some ''lunch'')" by (simp add: lunch_request_def)
  from description_default_empty [of ascii_upper "utc_clock 1705312800" init_db food_request
      "\<lparr>rows = [row_food], sqlite_sequence = 1\<rparr>" "created row_food" 201] create_food j1
  have d1: "description (expense (created row_food)) = Some []" by blast
  from description_default_empty [of ascii_upper "utc_clock 1705312800" init_db null_request
      "\<lparr>rows = [row_null_http], sqlite_sequence = 1\<rparr>" "created row_null_http" 201] cn j2
  have d2: "description (expense (created row_null_http)) = None" by blast
  from description_default_empty [of ascii_upper "utc_clock 1705312800" init_db lunch_request
      db1 "created row1" 201] create_lunch j3
  have d3: "description (expense (created row1)) = Some ''lunch''" by blast
  show ?thesis by (intro conjI create_food j1 d1 cn j2 d2 create_lunch j3 d3)
qed

section \<open>Listing\<close>

lemma where_category_selects: "where_category cat rs = filter (selects cat) rs"
  by (cases cat) (auto simp: where_category_def truthy_def selects_def sql_true_def sql_eq_def
        intro: filter_cong)

lemma date_key_less: "date_key a < date_key b \<longleftrightarrow> date_less a b"
  by (cases a; cases b) auto

lemma date_key_eq: "date_key a = date_key b \<longleftrightarrow> a = b"
  by (cases a; cases b) auto

lemma date_less_irrefl: "\<not> date_less a a"
  by (cases a) auto

lemma date_key_le: "date_key a \<le> date_key b \<longleftrightarrow> date_less a b \<or> a = b"
  by (simp add: le_less date_key_less date_key_eq)

lemma order_key_le: "order_key a \<le> order_key b \<longleftrightarrow> asc_order a b"
proof -
  have "order_key a \<le> order_key b \<longleftrightarrow>
      date_key (expense_date a) < date_key (expense_date b) \<or>
      date_key (expense_date a) \<le> date_key (expense_date b) \<and> created_at a \<le> created_at b"
    by (simp add: order_key_def)
  also have "\<dots> \<longleftrightarrow> asc_order a b"
    unfolding date_key_less date_key_le asc_order_def by blast
  finally show ?thesis .
qed

lemma desc_order_conv: "desc_order a b \<longleftrightarrow> asc_order b a"
  by (auto simp: asc_order_def desc_order_def)

lemma sorted_order_by_asc: "sorted_wrt asc_order (order_by False rs)"
proof -
  have "sorted (map order_key (sort_key order_key rs))" by (rule sorted_sort_key)
  then show ?thesis by (simp add: order_by_def sorted_map order_key_le)
qed

lemma sorted_order_by_desc: "sorted_wrt desc_order (order_by True rs)"
proof -
  have "sorted (map order_key (sort_key order_key (rev rs)))" by (rule sorted_sort_key)
  then have "sorted_wrt asc_order (sort_key order_key (rev rs))"
    by (simp add: sorted_map order_key_le)
  then have "sorted_wrt (\<lambda>a b. asc_order b a) (rev (sort_key order_key (rev rs)))"
    by (simp add: sorted_wrt_rev)
  then show ?thesis by (simp add: order_by_def desc_order_conv [abs_def])
qed

lemma mset_order_by: "mset (order_by desc rs) = mset rs"
  by (simp add: order_by_def)

text \<open>
  Claim C6, amended. For every table and every filter, \<open>get_expenses\<close> returns exactly
  the selected rows, each as often as it is stored: all rows when the filter is absent or
  the empty string, the rows of the given category otherwise. By default they are in
  ascending order of \<open>expense_date\<close>, in the order of SQLite on the stored values
  (\<open>date_less\<close>: a date stored as a number comes before every date stored as text), and,
  for equal dates, of \<open>created_at\<close>; with \<open>sort_by_date_desc\<close> both keys descend. In
  particular two rows of the same date come in the order of their \<open>created_at\<close> in the
  ascending listing.
\<close>

theorem get_expenses_ordered:
  "mset (get_expenses d cat desc) = mset (filter (selects cat) (rows d)) \<and>
   (\<not> desc \<longrightarrow> sorted_wrt asc_order (get_expenses d cat desc)) \<and>
   (desc \<longrightarrow> sorted_wrt desc_order (get_expenses d cat desc)) \<and>
   (\<forall>i j. i < j \<and> j < length (get_expenses d cat False) \<and>
      expense_date (get_expenses d cat False ! i) = expense_date (get_expenses d cat False ! j) \<longrightarrow>
      created_at (get_expenses d cat False ! i) \<le> created_at (get_expenses d cat False ! j))"
proof -
  have m: "mset (get_expenses d cat desc) = mset (filter (selects cat) (rows d))"
    by (simp add: get_expenses_def mset_order_by where_category_selects)
  have a: "\<not> desc \<longrightarrow> sorted_wrt asc_order (get_expenses d cat desc)"
    by (simp add: get_expenses_def sorted_order_by_asc)
  have b: "desc \<longrightarrow> sorted_wrt desc_order (get_expenses d cat desc)"
    by (simp add: get_expenses_def sorted_order_by_desc)
  have s: "sorted_wrt asc_order (get_expenses d cat False)"
    by (simp add: get_expenses_def sorted_order_by_asc)
  have t: "\<forall>i j. i < j \<and> j < length (get_expenses d cat False) \<and>
      expense_date (get_expenses d cat False ! i) = expense_date (get_expenses d cat False ! j) \<longrightarrow>
      created_at (get_expenses d cat False ! i) \<le> created_at (get_expenses d cat False ! j)"
  proof (intro allI impI)
    fix i j
    assume h: "i < j \<and> j < length (get_expenses d cat False) \<and>
      expense_date (get_expenses d cat False ! i) = expense_date (get_expenses d cat False ! j)"
    then have "asc_order (get_expenses d cat False ! i) (get_expenses d cat False ! j)"
      using s by (simp add: sorted_wrt_iff_nth_less)
    with h show "created_at (get_expenses d cat False ! i) \<le> created_at (get_expenses d cat False ! j)"
      by (simp add: asc_order_def date_less_irrefl)
  qed
  show ?thesis by (intro conjI m a b t)
qed

lemmas list_defs = get_expenses_def where_category_def truthy_def order_by_def order_key_def
  sql_true_def sql_eq_def

lemma get_db5_asc: "get_expenses db5 None False = [row2, row4, row5, row1]"
  by (simp add: list_defs db5_def row1_def row2_def row4_def row5_def)

lemma get_db5_desc: "get_expenses db5 None True = [row1, row5, row4, row2]"
  by (simp add: list_defs db5_def row1_def row2_def row4_def row5_def)

lemma get_db5_food: "get_expenses db5 (Some ''FOOD'') False = [row4, row5, row1]"
  by (simp add: list_defs db5_def row1_def row2_def row4_def row5_def)

text \<open>
  Claim C6 fails in two ways. For the empty string as filter: no row of \<open>db2\<close> has the
  category \<open>''\<close>, yet \<open>get_expenses\<close> with that filter lists both rows, since
  \<open>if category:\<close> is false for \<open>''\<close> and no \<open>WHERE\<close> clause is added. For the order of the
  dates: \<open>db8\<close> holds a record of 15 January 2024, given as \<open>'2024-01-15'\<close>, and one of 1
  February 2024, given as \<open>'20240201'\<close>. The second is stored as the number 20240201 and
  is listed first in the ascending listing, although its date is the later one and its
  text the greater one.
\<close>

theorem listing_counterexample:
  "get_expenses db2 (Some []) False = [row2, row1] \<and> [] \<notin> category ` set (rows db2) \<and>
   get_expenses db8 None False = [row8, row1] \<and>
   expense_date row1 = DateText ''2024-01-15'' \<and> expense_date row8 = DateNum 20240201 \<and>
   ''2024-01-15'' < ''20240201''"
  by (simp add: list_defs db2_def db8_def row1_def row2_def row8_def)

text \<open>
  The theorem at \<open>db5\<close>, whose rows \<open>row2\<close> and \<open>row4\<close> share the date 2024-01-01.
\<close>

theorem get_expenses_ordered_witness:
  "get_expenses db5 None False = [row2, row4, row5, row1] \<and>
   sorted_wrt asc_order [row2, row4, row5, row1] \<and>
   get_expenses db5 None True = [row1, row5, row4, row2] \<and>
   sorted_wrt desc_order [row1, row5, row4, row2] \<and>
   get_expenses db5 (Some ''FOOD'') False = [row4, row5, row1] \<and>
   mset [row4, row5, row1] = mset (filter (selects (Some ''FOOD'')) (rows db5)) \<and>
   (0::nat) < 1 \<and> 1 < length [row2, row4, row5, row1] \<and>
   expense_date ([row2, row4, row5, row1] ! 0) = expense_date ([row2, row4, row5, row1] ! 1) \<and>
   created_at ([row2, row4, row5, row1] ! 0) \<le> created_at ([row2, row4, row5, row1] ! 1)"
proof -
  note ta = get_expenses_ordered [of db5 None False]
  note td = get_expenses_ordered [of db5 None True]
  note tf = get_expenses_ordered [of db5 "Some ''FOOD''" False]
  from ta have a: "sorted_wrt asc_order [row2, row4, row5, row1]"
    unfolding get_db5_asc by blast
  from td have b: "sorted_wrt desc_order [row1, row5, row4, row2]"
    unfolding get_db5_desc by blast
  from tf have c: "mset [row4, row5, row1] = mset (filter (selects (Some ''FOOD'')) (rows db5))"
    unfolding get_db5_food by blast
  have i: "(0::nat) < 1" "1 < length [row2, row4, row5, row1]"
    "expense_date ([row2, row4, row5, row1] ! 0) = expense_date ([row2, row4, row5, row1] ! 1)"
    by (simp_all add: row2_def row4_def)
  from ta have "\<forall>i j. i < j \<and> j < length [row2, row4, row5, row1] \<and>
      expense_date ([row2, row4, row5, row1] ! i) = expense_date ([row2, row4, row5, row1] ! j) \<longrightarrow>
      created_at ([row2, row4, row5, row1] ! i) \<le> created_at ([row2, row4, row5, row1] ! j)"
    unfolding get_db5_asc by blast
  with i have e: "created_at ([row2, row4, row5, row1] ! 0) \<le> created_at ([row2, row4, row5, row1] ! 1)"
    by blast
  show ?thesis by (intro conjI get_db5_asc a get_db5_desc b get_db5_food c i e)
qed

text \<open>
  A listing with dates of every kind: the numbers come first, by value, then the texts,
  byte by byte.
\<close>

lemma get_expenses_mixed_dates_example:
  "map expense_date (get_expenses
      \<lparr>rows = [row1, row8, row1\<lparr>expense_date := DateText ''15 Jan 2024''\<rparr>,
               row1\<lparr>expense_date := DateNum 100000\<rparr>, row1\<lparr>expense_date := DatePosInf\<rparr>,
               row1\<lparr>expense_date := DateNegInf\<rparr>, row1\<lparr>expense_date := DateNum 1.5\<rparr>],
        sqlite_sequence = 7\<rparr> None False) =
     [DateNegInf, DateNum 1.5, DateNum 100000, DateNum 20240201, DatePosInf,
      DateText ''15 Jan 2024'', DateText ''2024-01-15'']"
  by (simp add: list_defs row1_def row8_def)

section \<open>Totals\<close>

lemma pow2_powi: "pow2 e = 2 powi e"
  by (simp add: pow2_def power_int_def power_one_over)

lemma pow2_Suc: "pow2 (e + 1) = 2 * pow2 e"
  by (simp add: pow2_powi power_int_add)

lemma pow2_mono: "e \<le> e' \<Longrightarrow> pow2 e \<le> pow2 e'"
  by (simp add: pow2_powi power_int_increasing)

text \<open>
  \<open>find_exp\<close> finds the exponent of the last place of \<open>a\<close>, from any exponent not further
  away than the fuel reaches.
\<close>

lemma find_exp_correct:
  assumes "\<bar>e' - e\<bar> \<le> fuel" and "- 1074 \<le> e" and "- 1074 \<le> e'" and "a < 2 ^ 53 * pow2 e'"
    and "2 ^ 52 * pow2 e' \<le> a \<or> e' = - 1074"
  shows "find_exp fuel a e = e'"
  using assms
proof (induction fuel a e rule: find_exp.induct)
  case (1 fuel a e)
  show ?case
  proof (cases "e = e'")
    case True
    with 1(4-7) show ?thesis by (subst find_exp.simps) auto
  next
    case False
    with 1(3) have fuel: "\<not> fuel \<le> 0" by simp
    show ?thesis
    proof (cases "e < e'")
      case True
      then have "e + 1 \<le> e'" by simp
      from pow2_mono [OF this] have le: "2 * pow2 e \<le> pow2 e'" by (simp add: pow2_Suc)
      from True 1(4) 1(7) have "2 ^ 52 * pow2 e' \<le> a" by auto
      with le have up: "2 ^ 53 * pow2 e \<le> a" by simp
      have "find_exp (fuel - 1) a (e + 1) = e'"
        using 1(1) [OF fuel up] 1(3-7) True by auto
      with fuel up show ?thesis by (subst find_exp.simps) simp
    next
      case False
      with \<open>e \<noteq> e'\<close> have gt: "e' < e" by simp
      then have "e' + 1 \<le> e" by simp
      from pow2_mono [OF this] have le: "2 * pow2 e' \<le> pow2 e" by (simp add: pow2_Suc)
      with 1(6) have down: "a < 2 ^ 52 * pow2 e" by simp
      have "pow2 e' \<le> pow2 e" using gt by (simp add: pow2_mono)
      with 1(6) have noup: "\<not> 2 ^ 53 * pow2 e \<le> a" by simp
      from gt 1(5) have elo: "- 1074 < e" by simp
      have "find_exp (fuel - 1) a (e - 1) = e'"
        using 1(2) [OF fuel noup] down elo 1(3-7) gt by auto
      with fuel noup down elo show ?thesis by (subst find_exp.simps) simp
    qed
  qed
qed

text \<open>The rounding of \<open>x\<close>, given the exponent of its last place.\<close>

lemma ieee_round_eq:
  assumes "x \<noteq> 0" and "- 1074 \<le> e" and "e \<le> 1126" and "\<bar>x\<bar> < 2 ^ 53 * pow2 e"
    and "2 ^ 52 * pow2 e \<le> \<bar>x\<bar> \<or> e = - 1074"
  shows "ieee_round x =
     (let y = of_int (round_even (\<bar>x\<bar> / pow2 e)) * pow2 e
      in if 2 ^ 1024 \<le> y then (if x < 0 then NegInf else PosInf)
         else Fin (if x < 0 then - y else y))"
proof -
  have fe: "find_exp 2200 \<bar>x\<bar> 0 = e"
    using assms by (intro find_exp_correct) auto
  show ?thesis unfolding ieee_round_def Let_def fe using assms(1) by simp
qed

lemmas round_defs = pow2_def round_even_def Let_def

lemma ieee_round_0: "ieee_round 0 = Fin 0"
  by (simp add: ieee_round_def)

lemma ieee_round_1: "ieee_round 1 = Fin 1"
  by (subst ieee_round_eq [where e = "- 52"]) (simp_all add: round_defs)

lemma ieee_round_2: "ieee_round 2 = Fin 2"
  by (subst ieee_round_eq [where e = "- 51"]) (simp_all add: round_defs)

lemma ieee_round_2_53: "ieee_round 9007199254740992 = Fin 9007199254740992"
  by (subst ieee_round_eq [where e = 1]) (simp_all add: round_defs)

text \<open>\<open>2 ^ 53 + 1\<close> lies halfway between two doubles and is rounded to the even one.\<close>

lemma ieee_round_2_53_1: "ieee_round 9007199254740993 = Fin 9007199254740992"
  by (subst ieee_round_eq [where e = 1]) (simp_all add: round_defs)

lemma ieee_round_2_53_2: "ieee_round 9007199254740994 = Fin 9007199254740994"
  by (subst ieee_round_eq [where e = 1]) (simp_all add: round_defs)

lemma ieee_round_100: "ieee_round 100 = Fin 100"
  by (subst ieee_round_eq [where e = "- 46"]) (simp_all add: round_defs)

lemma ieee_round_140: "ieee_round 140 = Fin 140"
  by (subst ieee_round_eq [where e = "- 45"]) (simp_all add: round_defs)

lemma ieee_round_147: "ieee_round 147 = Fin 147"
  by (subst ieee_round_eq [where e = "- 45"]) (simp_all add: round_defs)

lemma ieee_round_156: "ieee_round 156 = Fin 156"
  by (subst ieee_round_eq [where e = "- 45"]) (simp_all add: round_defs)

lemma ieee_round_107: "ieee_round 107 = Fin 107"
  by (subst ieee_round_eq [where e = "- 46"]) (simp_all add: round_defs)

lemma ieee_round_116: "ieee_round 116 = Fin 116"
  by (subst ieee_round_eq [where e = "- 46"]) (simp_all add: round_defs)

lemma ieee_round_40: "ieee_round 40 = Fin 40"
  by (subst ieee_round_eq [where e = "- 47"]) (simp_all add: round_defs)

lemma ieee_round_m40: "ieee_round (- 40) = Fin (- 40)"
  by (subst ieee_round_eq [where e = "- 47"]) (simp_all add: round_defs)

lemma ieee_round_m7: "ieee_round (- 7) = Fin (- 7)"
  by (subst ieee_round_eq [where e = "- 50"]) (simp_all add: round_defs)

lemma ieee_round_m9: "ieee_round (- 9) = Fin (- 9)"
  by (subst ieee_round_eq [where e = "- 49"]) (simp_all add: round_defs)

lemmas round_simps = ieee_round_0 ieee_round_1 ieee_round_2 ieee_round_2_53 ieee_round_2_53_1
  ieee_round_2_53_2 ieee_round_100 ieee_round_140 ieee_round_147 ieee_round_156 ieee_round_107
  ieee_round_116 ieee_round_40 ieee_round_m40 ieee_round_m7 ieee_round_m9

lemmas sum_defs = sql_sum_def kahanBabuskaNeumaierStep_def sumFinalize_def
  sqlite3IsOverflow_def ieee_sub_def bind_float_def Let_def

text \<open>
  \<open>SUM\<close> on some lists of amounts. The sum of plus and minus infinity is NULL, and a sum
  that overflows is an infinity.
\<close>

lemma sql_sum_examples:
  "sql_sum [] = None"
  "sql_sum [Fin 100, Fin 40, Fin 7, Fin 9] = Some (Fin 156)"
  "sql_sum [Fin 9007199254740992, Fin 1, Fin 1] = Some (Fin 9007199254740994)"
  "sql_sum [Fin 9007199254740992, Fin 1] = Some (Fin 9007199254740992)"
  "sql_sum [PosInf, NegInf] = None"
  "sql_sum [PosInf] = Some PosInf"
  by (simp_all add: sum_defs round_simps)












end
